theory Spec2Isabelle
  imports Complex_Main
begin

section \<open>Values, strings and the remote service\<close>

text \<open>
  The script \<^verbatim>\<open>scripts/reddit_scanner.py\<close> returns Python dictionaries and lists that
  are printed with \<^verbatim>\<open>json.dumps\<close>. A dictionary is an association list in insertion
  order; numbers that the client library delivers as floats (timestamps) are reals,
  Python's unbounded integers are \<open>int\<close>.
\<close>

datatype json =
    JStr string
  | JInt int
  | JNum real
  | JBool bool
  | JList "json list"
  | JObj "(string \<times> json) list"

text \<open>\<^verbatim>\<open>d.get(k)\<close> on a dictionary; any other value has no keys.\<close>

fun dict_get :: "json \<Rightarrow> string \<Rightarrow> json option" where
  "dict_get (JObj kvs) k = map_of kvs k"
| "dict_get _ k = None"

text \<open>The message \<^verbatim>\<open>str(e)\<close> of a raised \<^verbatim>\<open>Exception\<close>.\<close>

type_synonym exn = string

text \<open>Python truthiness of an optional string: \<^verbatim>\<open>None\<close> and \<^verbatim>\<open>""\<close> are false.\<close>

fun truthy :: "string option \<Rightarrow> bool" where
  "truthy None = False"
| "truthy (Some s) = (s \<noteq> [])"

text \<open>\<^verbatim>\<open>x or d\<close> for an optional string \<open>x\<close>.\<close>

fun or_else :: "string option \<Rightarrow> string \<Rightarrow> string" where
  "or_else None d = d"
| "or_else (Some s) d = (if s = [] then d else s)"

text \<open>
  \<^verbatim>\<open>str.lower()\<close>. Characters are bytes here, so the model covers ASCII text: the
  letters \<open>A\<close> to \<open>Z\<close> are mapped to \<open>a\<close> to \<open>z\<close>, every other character is kept.
\<close>

definition lower_char :: "char \<Rightarrow> char" where
  "lower_char c =
     (case map_of (zip ''ABCDEFGHIJKLMNOPQRSTUVWXYZ'' ''abcdefghijklmnopqrstuvwxyz'') c of
        None \<Rightarrow> c
      | Some d \<Rightarrow> d)"

definition lower :: "string \<Rightarrow> string" where
  "lower s = map lower_char s"

text \<open>\<^verbatim>\<open>s.startswith(p)\<close> and the substring test \<^verbatim>\<open>kw in text\<close>.\<close>

fun startswith :: "string \<Rightarrow> string \<Rightarrow> bool" where
  "startswith s [] = True"
| "startswith [] (p # ps) = False"
| "startswith (c # cs) (p # ps) = (c = p \<and> startswith cs ps)"

fun str_in :: "string \<Rightarrow> string \<Rightarrow> bool" where
  "str_in kw [] = (kw = [])"
| "str_in kw (c # cs) = (startswith (c # cs) kw \<or> str_in kw cs)"

subsection \<open>Objects delivered by the client library\<close>

record post =
  post_id :: string
  post_title :: string
  post_selftext :: "string option"
  post_permalink :: string
  post_subreddit :: string
  post_score :: int
  post_num_comments :: int
  post_created_utc :: real

text \<open>
  A comment forest as the library holds it: a comment with its (possibly deleted) author
  and its replies, or a "load more" placeholder standing for comments not yet loaded.
\<close>

datatype comment =
    Comment "string option" "comment list"
  | MoreComments "comment list"

record submission =
  sub_title :: string
  sub_permalink :: string
  sub_comments :: "comment list"

record redditor =
  r_name :: string
  r_link_karma :: int
  r_comment_karma :: int
  r_created_utc :: real
  r_has_verified_email :: bool

record new_comment =
  nc_id :: string
  nc_permalink :: string

text \<open>
  The keyword arguments \<^verbatim>\<open>praw.Reddit\<close> is called with; the login is present only when
  both the user name and the password are set.
\<close>

record reddit =
  client_id :: string
  client_secret :: string
  user_agent :: string
  login :: "(string \<times> string) option"

subsection \<open>The remote service\<close>

text \<open>
  Every request the script sends through the client library is recorded, in order.
\<close>

datatype request =
    ListNew string nat
  | ListHot string nat
  | FetchSubmission string
  | FetchMe
  | SubmitComment string string

text \<open>
  The service is a black box. A listing yields some posts and may then raise; fetching a
  submission or the profile returns or raises; the profile is \<^verbatim>\<open>None\<close> for a read-only
  handle. \<open>reply_outcome\<close> is the service's answer to a comment submission.
  \<open>client_init\<close> is the outcome of the constructor \<^verbatim>\<open>praw.Reddit(**kwargs)\<close>, which reads
  the library's own configuration and may raise; it sends no request to the service.
  \<open>age_hours_at\<close> and \<open>age_days_at\<close> stand for the rounded clock differences
  \<^verbatim>\<open>round((time.time() - t) / 3600, 1)\<close> and \<^verbatim>\<open>round((time.time() - t) / 86400, 1)\<close>:
  the wall clock and floating-point rounding are not modelled further.
\<close>

record world =
  client_init :: "reddit \<Rightarrow> exn option"
  new_listing :: "string \<Rightarrow> nat \<Rightarrow> post list \<times> exn option"
  hot_listing :: "string \<Rightarrow> nat \<Rightarrow> post list \<times> exn option"
  submissions :: "string \<Rightarrow> exn + submission"
  user_me :: "exn + redditor option"
  reply_outcome :: "string \<Rightarrow> string \<Rightarrow> exn + new_comment"
  age_hours_at :: "real \<Rightarrow> real"
  age_days_at :: "real \<Rightarrow> real"
  requests :: "request list"

definition sent :: "request \<Rightarrow> world \<Rightarrow> world" where
  "sent r w = w\<lparr>requests := requests w @ [r]\<rparr>"

section \<open>Configuration\<close>

definition DEFAULT_SUBS :: "string list" where
  "DEFAULT_SUBS =
     [''SideProject'', ''SaaS'', ''entrepreneur'', ''Automate'',
      ''smallbusiness'', ''startups'', ''webdev'', ''dataisbeautiful'']"

definition PAIN_KEYWORDS :: "string list" where
  "PAIN_KEYWORDS =
     [''is there a tool'', ''i need'', ''looking for'', ''anyone know'',
      ''does anyone'', ''how do i'', ''recommend'', ''alternative to'',
      ''automation'', ''ai tool'', ''workflow'', ''scraping'', ''monitoring'',
      ''competitor analysis'', ''market research'', ''price tracking'',
      ''data collection'', ''web scraping'', ''browser automation'']"

section \<open>Client initialisation\<close>

text \<open>The process environment, read with \<^verbatim>\<open>os.environ.get\<close>.\<close>

type_synonym env = "string \<Rightarrow> string option"

text \<open>
  \<^verbatim>\<open>get_reddit\<close>: \<^verbatim>\<open>None\<close> unless both the client id and the client secret are set and
  non-empty; otherwise the handle the constructor returns, or the exception it raises.
\<close>

definition get_reddit :: "env \<Rightarrow> world \<Rightarrow> exn + reddit option" where
  "get_reddit e w =
     (let cid = e ''REDDIT_CLIENT_ID'';
          secret = e ''REDDIT_CLIENT_SECRET'';
          username = e ''REDDIT_USERNAME'';
          password = e ''REDDIT_PASSWORD''
      in if \<not> truthy cid \<or> \<not> truthy secret then Inr None
         else (let kwargs = \<lparr>client_id = or_else cid [],
                             client_secret = or_else secret [],
                             user_agent = ''market_research_assistant:v1.0 (by /u/''
                                          @ or_else username ''fishbig'' @ '')'',
                             login = (if truthy username \<and> truthy password
                                      then Some (or_else username [], or_else password [])
                                      else None)\<rparr>
               in case client_init w kwargs of
                    Some x \<Rightarrow> Inl x
                  | None \<Rightarrow> Inr (Some kwargs)))"

definition error_object :: "string \<Rightarrow> json" where
  "error_object msg = JObj [(''error'', JStr msg)]"

text \<open>
  A \<^verbatim>\<open>try: ... except Exception as e: return {"error": str(e)}\<close> around a body that
  either returns a value or raises.
\<close>

fun catch_all :: "(exn + json) \<times> world \<Rightarrow> (exn + json) \<times> world" where
  "catch_all (Inl e, w) = (Inr (error_object e), w)"
| "catch_all (Inr v, w) = (Inr v, w)"

text \<open>\<^verbatim>\<open>reddit.user.me()\<close>: one request, which returns the profile or raises.\<close>

definition fetch_me :: "world \<Rightarrow> (exn + redditor option) \<times> world" where
  "fetch_me w = (user_me w, sent FetchMe w)"

section \<open>Account status\<close>

text \<open>
  The body of the \<^verbatim>\<open>try\<close> block of \<^verbatim>\<open>check_status\<close>. With no profile, \<^verbatim>\<open>me.name\<close>
  raises \<^verbatim>\<open>AttributeError\<close>.
\<close>

definition none_has_no_name :: exn where
  "none_has_no_name =
     [CHR 0x27] @ ''NoneType'' @ [CHR 0x27] @ '' object has no attribute ''
     @ [CHR 0x27] @ ''name'' @ [CHR 0x27]"

definition check_status_body :: "world \<Rightarrow> (exn + json) \<times> world" where
  "check_status_body w =
     (case fetch_me w of
        (Inl e, w1) \<Rightarrow> (Inl e, w1)
      | (Inr None, w1) \<Rightarrow> (Inl none_has_no_name, w1)
      | (Inr (Some me), w1) \<Rightarrow>
          (Inr (JObj [(''username'', JStr (r_name me)),
                      (''link_karma'', JInt (r_link_karma me)),
                      (''comment_karma'', JInt (r_comment_karma me)),
                      (''total_karma'', JInt (r_link_karma me + r_comment_karma me)),
                      (''account_age_days'', JNum (age_days_at w (r_created_utc me))),
                      (''is_verified'', JBool (r_has_verified_email me)),
                      (''ready_for_action'', JBool (r_comment_karma me \<ge> 50))]), w1))"

definition check_status :: "env \<Rightarrow> world \<Rightarrow> (exn + json) \<times> world" where
  "check_status e w =
     (case get_reddit e w of
        Inl x \<Rightarrow> (Inl x, w)
      | Inr None \<Rightarrow> (Inr (error_object ''Reddit credentials not configured.''), w)
      | Inr (Some r) \<Rightarrow> catch_all (check_status_body w))"

section \<open>Scan\<close>

text \<open>The text a keyword is looked up in: \<^verbatim>\<open>(post.title + " " + (post.selftext or "")).lower()\<close>.\<close>

definition post_text :: "post \<Rightarrow> string" where
  "post_text p = lower (post_title p @ '' '' @ or_else (post_selftext p) [])"

text \<open>\<^verbatim>\<open>[kw for kw in kws if kw in text]\<close>: the keyword itself is used as it is given.\<close>

definition matched_keywords :: "string list \<Rightarrow> post \<Rightarrow> string list" where
  "matched_keywords kws p = filter (\<lambda>kw. str_in kw (post_text p)) kws"

definition post_record :: "world \<Rightarrow> string \<Rightarrow> post \<Rightarrow> string list \<Rightarrow> json" where
  "post_record w sub_name p matched =
     JObj [(''id'', JStr (post_id p)),
           (''title'', JStr (post_title p)),
           (''body'', JStr (take 800 (or_else (post_selftext p) []))),
           (''url'', JStr (''https://reddit.com'' @ post_permalink p)),
           (''subreddit'', JStr sub_name),
           (''score'', JInt (post_score p)),
           (''num_comments'', JInt (post_num_comments p)),
           (''created_utc'', JNum (post_created_utc p)),
           (''age_hours'', JNum (age_hours_at w (post_created_utc p))),
           (''keywords_matched'', JList (map JStr matched))]"

text \<open>The inner loop over the posts a listing yielded, appending to \<open>results\<close>.\<close>

fun scan_posts :: "world \<Rightarrow> string list \<Rightarrow> string \<Rightarrow> post list \<Rightarrow> json list \<Rightarrow> json list" where
  "scan_posts w kws sub_name [] results = results"
| "scan_posts w kws sub_name (p # ps) results =
     (let matched = matched_keywords kws p
      in if matched \<noteq> []
         then scan_posts w kws sub_name ps (results @ [post_record w sub_name p matched])
         else scan_posts w kws sub_name ps results)"

text \<open>The record \<^verbatim>\<open>{"error": f"Failed to scan r/{sub_name}: {str(e)}"}\<close>.\<close>

definition scan_failure :: "string \<Rightarrow> exn \<Rightarrow> json" where
  "scan_failure sub_name e = error_object (''Failed to scan r/'' @ sub_name @ '': '' @ e)"

text \<open>
  One iteration of the outer loop: the \<^verbatim>\<open>try\<close> block processes the posts the listing
  yields; if the listing then raises, the \<^verbatim>\<open>except\<close> branch appends an error record.
\<close>

definition scan_sub :: "world \<Rightarrow> string list \<Rightarrow> nat \<Rightarrow> string \<Rightarrow> json list \<Rightarrow> json list" where
  "scan_sub w kws limit sub_name results =
     (case new_listing w sub_name limit of
        (posts, failure) \<Rightarrow>
          (let results1 = scan_posts w kws sub_name posts results
           in case failure of
                None \<Rightarrow> results1
              | Some e \<Rightarrow> results1 @ [scan_failure sub_name e]))"

fun scan_subs :: "world \<Rightarrow> string list \<Rightarrow> nat \<Rightarrow> string list \<Rightarrow> json list \<Rightarrow> json list \<times> world" where
  "scan_subs w kws limit [] results = (results, w)"
| "scan_subs w kws limit (sub_name # subs) results =
     scan_subs (sent (ListNew sub_name limit) w) kws limit subs
       (scan_sub w kws limit sub_name results)"

text \<open>
  The sort key \<^verbatim>\<open>x.get("created_utc", 0)\<close>. Only numbers are ever stored under that
  key, so the last case is never reached.
\<close>

definition created_key :: "json \<Rightarrow> real" where
  "created_key x =
     (case dict_get x ''created_utc'' of
        None \<Rightarrow> 0
      | Some (JNum t) \<Rightarrow> t
      | Some (JInt i) \<Rightarrow> of_int i
      | Some _ \<Rightarrow> 0)"

text \<open>
  \<^verbatim>\<open>results.sort(key=..., reverse=True)\<close>: descending by key, and stable (records with
  equal keys keep their order), which is an ascending stable sort by the negated key.
\<close>

definition sort_by_recency :: "json list \<Rightarrow> json list" where
  "sort_by_recency results = sort_key (\<lambda>x. - created_key x) results"

text \<open>\<^verbatim>\<open>xs or default\<close> for an optional list: \<^verbatim>\<open>None\<close> and \<^verbatim>\<open>[]\<close> are false.\<close>

fun list_or :: "'a list option \<Rightarrow> 'a list \<Rightarrow> 'a list" where
  "list_or None d = d"
| "list_or (Some xs) d = (if xs = [] then d else xs)"

definition scan_opportunities ::
  "env \<Rightarrow> world \<Rightarrow> string list option \<Rightarrow> string list option \<Rightarrow> nat \<Rightarrow> (exn + json) \<times> world" where
  "scan_opportunities e w subreddits keywords limit =
     (case get_reddit e w of
        Inl x \<Rightarrow> (Inl x, w)
      | Inr None \<Rightarrow>
          (Inr (error_object
             ''Reddit credentials not configured. Set REDDIT_CLIENT_ID and REDDIT_CLIENT_SECRET.''), w)
      | Inr (Some r) \<Rightarrow>
          (let subs = list_or subreddits DEFAULT_SUBS;
               kws = list_or keywords PAIN_KEYWORDS
           in case scan_subs w kws limit subs [] of
                (results, w1) \<Rightarrow> (Inr (JList (sort_by_recency results)), w1)))"

section \<open>Reply\<close>

text \<open>
  \<^verbatim>\<open>submission.comments.replace_more(limit=0)\<close>: the client library replaces at most
  \<open>limit\<close> placeholders by the comments they stand for and removes the others from the
  forest; with the limit 0 that the script passes, every placeholder is removed and no
  request is sent.
\<close>

fun replace_more_0 :: "comment \<Rightarrow> comment list" where
  "replace_more_0 (Comment a rs) = [Comment a (concat (map replace_more_0 rs))]"
| "replace_more_0 (MoreComments hidden) = []"

text \<open>\<^verbatim>\<open>submission.comments.list()\<close>: the forest flattened breadth first.\<close>

function comments_list :: "comment list \<Rightarrow> comment list" where
  "comments_list [] = []"
| "comments_list (Comment a rs # queue) = Comment a rs # comments_list (queue @ rs)"
| "comments_list (MoreComments hidden # queue) = MoreComments hidden # comments_list queue"
  by pat_completeness auto
termination
  by (relation "measure (size_list size)") auto

definition more_has_no_author :: exn where
  "more_has_no_author =
     [CHR 0x27] @ ''MoreComments'' @ [CHR 0x27] @ '' object has no attribute ''
     @ [CHR 0x27] @ ''author'' @ [CHR 0x27]"

text \<open>
  \<^verbatim>\<open>any(c.author and c.author.name == me.name for c in ...)\<close>, left to right: a deleted
  author is \<^verbatim>\<open>None\<close>; a placeholder has no \<^verbatim>\<open>author\<close> attribute.
\<close>

fun any_authored :: "string \<Rightarrow> comment list \<Rightarrow> exn + bool" where
  "any_authored name [] = Inr False"
| "any_authored name (Comment a rs # cs) =
     (if a = Some name then Inr True else any_authored name cs)"
| "any_authored name (MoreComments hidden # cs) = Inl more_has_no_author"

text \<open>
  \<^verbatim>\<open>submission.reply(text)\<close>: one request. When the service accepts it, the submission
  has a new top-level comment by the logged-in account.
\<close>

definition add_comment :: "string option \<Rightarrow> exn + submission \<Rightarrow> exn + submission" where
  "add_comment author s =
     (case s of
        Inl e \<Rightarrow> Inl e
      | Inr sub \<Rightarrow> Inr (sub\<lparr>sub_comments := sub_comments sub @ [Comment author []]\<rparr>))"

definition account_name :: "world \<Rightarrow> string option" where
  "account_name w = (case user_me w of Inr (Some me) \<Rightarrow> Some (r_name me) | _ \<Rightarrow> None)"

definition submit_reply :: "world \<Rightarrow> string \<Rightarrow> string \<Rightarrow> (exn + new_comment) \<times> world" where
  "submit_reply w pid text =
     (let w1 = sent (SubmitComment pid text) w
      in case reply_outcome w pid text of
           Inl e \<Rightarrow> (Inl e, w1)
         | Inr c \<Rightarrow>
             (Inr c, w1\<lparr>submissions :=
                          (submissions w)(pid := add_comment (account_name w) (submissions w pid))\<rparr>))"

text \<open>The body of the \<^verbatim>\<open>try\<close> block of \<^verbatim>\<open>reply_to_post\<close>.\<close>

definition reply_body :: "world \<Rightarrow> string \<Rightarrow> string \<Rightarrow> bool \<Rightarrow> (exn + json) \<times> world" where
  "reply_body w pid reply_text dry_run =
     (let w1 = sent (FetchSubmission pid) w
      in case submissions w pid of
           Inl e \<Rightarrow> (Inl e, w1)
         | Inr submission \<Rightarrow>
             (let comments = concat (map replace_more_0 (sub_comments submission))
              in case fetch_me w1 of
                   (Inl e, w2) \<Rightarrow> (Inl e, w2)
                 | (Inr me, w2) \<Rightarrow>
                     (case (case me of
                              None \<Rightarrow> Inr False
                            | Some m \<Rightarrow> any_authored (r_name m) (comments_list comments)) of
                        Inl e \<Rightarrow> (Inl e, w2)
                      | Inr already_replied \<Rightarrow>
                          if already_replied
                          then (Inr (JObj [(''status'', JStr ''skipped''),
                                           (''reason'', JStr ''already_replied'')]), w2)
                          else if dry_run
                          then (Inr (JObj [(''status'', JStr ''dry_run''),
                                           (''post_title'', JStr (sub_title submission)),
                                           (''post_url'', JStr (''https://reddit.com''
                                                               @ sub_permalink submission)),
                                           (''would_reply'', JStr (take 300 reply_text))]), w2)
                          else (case submit_reply w2 pid reply_text of
                                  (Inl e, w3) \<Rightarrow> (Inl e, w3)
                                | (Inr c, w3) \<Rightarrow>
                                    (Inr (JObj [(''status'', JStr ''replied''),
                                                (''post_id'', JStr pid),
                                                (''comment_id'', JStr (nc_id c)),
                                                (''comment_url'', JStr (''https://reddit.com''
                                                                       @ nc_permalink c))]),
                                     w3)))))"

definition reply_to_post :: "env \<Rightarrow> world \<Rightarrow> string \<Rightarrow> string \<Rightarrow> bool \<Rightarrow> (exn + json) \<times> world" where
  "reply_to_post e w pid reply_text dry_run =
     (case get_reddit e w of
        Inl x \<Rightarrow> (Inl x, w)
      | Inr None \<Rightarrow> (Inr (error_object ''Reddit credentials not configured.''), w)
      | Inr (Some r) \<Rightarrow> catch_all (reply_body w pid reply_text dry_run))"

section \<open>Warmup\<close>

definition hot_entry :: "post \<Rightarrow> json" where
  "hot_entry p =
     JObj [(''title'', JStr (take 100 (post_title p))),
           (''subreddit'', JStr (post_subreddit p)),
           (''score'', JInt (post_score p))]"

text \<open>The body of the \<^verbatim>\<open>try\<close> block of \<^verbatim>\<open>warmup_actions\<close>.\<close>

definition warmup_body :: "world \<Rightarrow> (exn + json) \<times> world" where
  "warmup_body w =
     (case fetch_me w of
        (Inl e, w1) \<Rightarrow> (Inl e, w1)
      | (Inr me, w1) \<Rightarrow>
          (let karma = (case me of
                          None \<Rightarrow> 0
                        | Some m \<Rightarrow> r_link_karma m + r_comment_karma m);
               w2 = sent (ListHot ''all'' 5) w1
           in case hot_listing w ''all'' 5 of
                (posts, Some e) \<Rightarrow> (Inl e, w2)
              | (posts, None) \<Rightarrow>
                  (let hot_posts = map hot_entry posts
                   in (Inr (JObj [(''status'', JStr ''ok''),
                                  (''username'', JStr (case me of
                                                        None \<Rightarrow> ''unknown''
                                                      | Some m \<Rightarrow> r_name m)),
                                  (''karma'', JInt karma),
                                  (''account_age_days'',
                                     (case me of
                                        None \<Rightarrow> JInt 0
                                      | Some m \<Rightarrow> JNum (age_days_at w (r_created_utc m)))),
                                  (''hot_posts_browsed'', JInt (int (length hot_posts))),
                                  (''suggestion'',
                                     JStr (if karma < 100
                                           then ''Comment on these posts with genuine value to build karma''
                                           else ''Ready for targeted replies''))]),
                       w2))))"

definition warmup_actions :: "env \<Rightarrow> world \<Rightarrow> (exn + json) \<times> world" where
  "warmup_actions e w =
     (case get_reddit e w of
        Inl x \<Rightarrow> (Inl x, w)
      | Inr None \<Rightarrow> (Inr (error_object ''Reddit credentials not configured.''), w)
      | Inr (Some r) \<Rightarrow> catch_all (warmup_body w))"

section \<open>Command line\<close>

text \<open>\<^verbatim>\<open>s.split(",")\<close>.\<close>

fun split_on :: "char \<Rightarrow> string \<Rightarrow> string list" where
  "split_on d [] = [[]]"
| "split_on d (c # cs) =
     (if c = d then [] # split_on d cs
      else (case split_on d cs of
              [] \<Rightarrow> [[c]]
            | x # xs \<Rightarrow> (c # x) # xs))"

text \<open>
  The loop over \<^verbatim>\<open>sys.argv[2:]\<close>: the last \<^verbatim>\<open>--subs=\<close> argument wins;
  \<^verbatim>\<open>arg.split("=", 1)[1]\<close> is what follows the first \<^verbatim>\<open>=\<close>.
\<close>

fun parse_subs :: "string list \<Rightarrow> string list option \<Rightarrow> string list option" where
  "parse_subs [] subs = subs"
| "parse_subs (arg # args) subs =
     parse_subs args
       (if startswith arg ''--subs=''
        then Some (split_on CHR '','' (tl (dropWhile (\<lambda>c. c \<noteq> CHR ''='') arg)))
        else subs)"

text \<open>
  An operation's value is printed and the process ends with status 0; an exception
  that escaped the operation would end the process without a document.
\<close>

fun printed :: "(exn + json) \<times> world \<Rightarrow> (exn + json \<times> nat) \<times> world" where
  "printed (Inl e, w) = (Inl e, w)"
| "printed (Inr v, w) = (Inr (v, 0), w)"

text \<open>
  The \<^verbatim>\<open>__main__\<close> block: the printed document and the exit status.
  \<^verbatim>\<open>"--live" not in sys.argv\<close> looks at every argument.
\<close>

definition main :: "env \<Rightarrow> world \<Rightarrow> string list \<Rightarrow> (exn + json \<times> nat) \<times> world" where
  "main e w argv =
     (if length argv < 2
      then (Inr (error_object ''Usage: reddit_scanner.py <scan|reply|warmup|status>'', 1), w)
      else
        (let cmd = argv ! 1
         in if cmd = ''scan''
            then printed (scan_opportunities e w (parse_subs (drop 2 argv) None) None 25)
            else if cmd = ''reply''
            then (if length argv < 4
                  then (Inr (error_object ''Usage: reply <post_id> <text> [--live]'', 1), w)
                  else (let post_id = argv ! 2;
                            reply_text = argv ! 3;
                            dry_run = (''--live'' \<notin> set argv)
                        in printed (reply_to_post e w post_id reply_text dry_run)))
            else if cmd = ''warmup''
            then printed (warmup_actions e w)
            else if cmd = ''status''
            then printed (check_status e w)
            else (Inr (error_object (''Unknown command: '' @ cmd), 1), w)))"

section \<open>Notions used to state the properties\<close>

text \<open>
  A keyword occurs in a text without regard to case when its lower-cased form is a
  substring of the lower-cased text.
\<close>

definition ci_occurs :: "string \<Rightarrow> string \<Rightarrow> bool" where
  "ci_occurs kw t = str_in (lower kw) (lower t)"

text \<open>
  An account has commented in a forest: \<open>authored_loaded\<close> looks at the comments that
  are loaded and passes over placeholders, \<open>authored_anywhere\<close> also looks at the
  comments a placeholder stands for (the forest with every placeholder expanded).
\<close>

fun authored_loaded :: "string \<Rightarrow> comment \<Rightarrow> bool" where
  "authored_loaded name (Comment a rs) = (a = Some name \<or> (\<exists>r \<in> set rs. authored_loaded name r))"
| "authored_loaded name (MoreComments hidden) = False"

fun authored_anywhere :: "string \<Rightarrow> comment \<Rightarrow> bool" where
  "authored_anywhere name (Comment a rs) =
     (a = Some name \<or> (\<exists>r \<in> set rs. authored_anywhere name r))"
| "authored_anywhere name (MoreComments hidden) = (\<exists>c \<in> set hidden. authored_anywhere name c)"

text \<open>
  What one subreddit contributes to the result list: the records of its matching posts, in
  listing order, and then the error record if its listing raised.
\<close>

definition sub_hits :: "world \<Rightarrow> string list \<Rightarrow> nat \<Rightarrow> string \<Rightarrow> json list" where
  "sub_hits w kws limit s =
     map (\<lambda>p. post_record w s p (matched_keywords kws p))
         (filter (\<lambda>p. matched_keywords kws p \<noteq> []) (fst (new_listing w s limit)))"

definition sub_errors :: "world \<Rightarrow> nat \<Rightarrow> string \<Rightarrow> json list" where
  "sub_errors w limit s =
     (case snd (new_listing w s limit) of
        None \<Rightarrow> []
      | Some m \<Rightarrow> [scan_failure s m])"

definition commented_loaded :: "string \<Rightarrow> comment list \<Rightarrow> bool" where
  "commented_loaded name forest = (\<exists>c \<in> set forest. authored_loaded name c)"

definition commented_anywhere :: "string \<Rightarrow> comment list \<Rightarrow> bool" where
  "commented_anywhere name forest = (\<exists>c \<in> set forest. authored_anywhere name c)"

text \<open>A forest without placeholders at any depth.\<close>

fun loaded :: "comment \<Rightarrow> bool" where
  "loaded (Comment a rs) = (\<forall>r \<in> set rs. loaded r)"
| "loaded (MoreComments hidden) = False"

definition skipped_result :: json where
  "skipped_result = JObj [(''status'', JStr ''skipped''), (''reason'', JStr ''already_replied'')]"

definition is_submit :: "request \<Rightarrow> bool" where
  "is_submit r = (case r of SubmitComment pid t \<Rightarrow> True | _ \<Rightarrow> False)"

text \<open>The comment submissions among the requests sent so far.\<close>

definition submits :: "world \<Rightarrow> request list" where
  "submits w = filter is_submit (requests w)"

subsection \<open>A sample environment and service\<close>

definition demo_env :: env where
  "demo_env =
     (\<lambda>k. if k = ''REDDIT_CLIENT_ID'' then Some ''id''
          else if k = ''REDDIT_CLIENT_SECRET'' then Some ''secret''
          else if k = ''REDDIT_USERNAME'' then Some ''fishbig''
          else if k = ''REDDIT_PASSWORD'' then Some ''password''
          else None)"

definition demo_handle :: reddit where
  "demo_handle =
     \<lparr>client_id = ''id'', client_secret = ''secret'',
      user_agent = ''market_research_assistant:v1.0 (by /u/fishbig)'',
      login = Some (''fishbig'', ''password'')\<rparr>"

definition no_secret_env :: env where
  "no_secret_env = (\<lambda>k. if k = ''REDDIT_CLIENT_ID'' then Some ''id'' else None)"

definition demo_me :: redditor where
  "demo_me = \<lparr>r_name = ''fishbig'', r_link_karma = 40, r_comment_karma = 15,
              r_created_utc = 1700000000, r_has_verified_email = True\<rparr>"

definition price_post :: post where
  "price_post =
     \<lparr>post_id = ''p1'', post_title = ''Looking for a tool to track competitor prices'',
      post_selftext = Some ''Any price tracking ideas?'', post_permalink = ''/r/SaaS/comments/p1/'',
      post_subreddit = ''SaaS'', post_score = 3, post_num_comments = 2,
      post_created_utc = 1700000000\<rparr>"

definition ai_post :: post where
  "ai_post =
     \<lparr>post_id = ''p2'', post_title = ''AI tool for browser automation'',
      post_selftext = None, post_permalink = ''/r/startups/comments/p2/'',
      post_subreddit = ''startups'', post_score = 1, post_num_comments = 0,
      post_created_utc = 1700000500\<rparr>"

definition demo_world :: world where
  "demo_world =
     \<lparr>client_init = (\<lambda>kwargs. None),
      new_listing =
        (\<lambda>s n. if s = ''SaaS'' then ([price_post], None)
               else if s = ''startups'' then ([ai_post], None)
               else if s = ''private'' then ([], Some ''received 403 HTTP response'')
               else ([], None)),
      hot_listing = (\<lambda>s n. ([price_post, ai_post], None)),
      submissions =
        (\<lambda>pid. if pid = ''p1''
                then Inr \<lparr>sub_title = ''Looking for a tool to track competitor prices'',
                          sub_permalink = ''/r/SaaS/comments/p1/'',
                          sub_comments = [Comment (Some ''someone'') [Comment (Some ''fishbig'') []],
                                          Comment None []]\<rparr>
                else if pid = ''p2''
                then Inr \<lparr>sub_title = ''AI tool for browser automation'',
                          sub_permalink = ''/r/startups/comments/p2/'',
                          sub_comments = [Comment (Some ''someone'') [],
                                          MoreComments [Comment (Some ''fishbig'') []]]\<rparr>
                else if pid = ''p3''
                then Inr \<lparr>sub_title = ''I need a workflow'',
                          sub_permalink = ''/r/old/comments/p3/'',
                          sub_comments = []\<rparr>
                else Inl ''received 404 HTTP response''),
      user_me = Inr (Some demo_me),
      reply_outcome = (\<lambda>pid t. Inr \<lparr>nc_id = ''c9'', nc_permalink = ''/r/x/comments/c9/''\<rparr>),
      age_hours_at = (\<lambda>t. 1.5),
      age_days_at = (\<lambda>t. 30.5),
      requests = []\<rparr>"

text \<open>The same service when the profile request is refused.\<close>

definition offline_world :: world where
  "offline_world = demo_world\<lparr>user_me := Inl ''received 401 HTTP response''\<rparr>"

text \<open>The same service in a process where the constructor of the client raises.\<close>

definition broken_init_world :: world where
  "broken_init_world = demo_world\<lparr>client_init := (\<lambda>kwargs. Some ''No section: nosuch'')\<rparr>"

section \<open>Properties\<close>

subsection \<open>Configuration\<close>

lemma get_reddit_init:
  "client_init w = (\<lambda>kwargs. None) \<Longrightarrow> get_reddit demo_env w = Inr (Some demo_handle)"
  by (simp add: get_reddit_def demo_env_def demo_handle_def)

lemma get_reddit_demo: "get_reddit demo_env demo_world = Inr (Some demo_handle)"
  by (rule get_reddit_init) (simp add: demo_world_def)

lemma get_reddit_absent:
  "e ''REDDIT_CLIENT_ID'' = None \<or> e ''REDDIT_CLIENT_SECRET'' = None
     \<Longrightarrow> get_reddit e w = Inr None"
  by (auto simp: get_reddit_def Let_def)

lemma error_field [simp]: "dict_get (error_object m) ''error'' = Some (JStr m)"
  by (simp add: error_object_def)

lemma get_reddit_requests [simp]: "get_reddit e (w\<lparr>requests := rs\<rparr>) = get_reddit e w"
  by (simp add: get_reddit_def Let_def)

text \<open>
  Claim C4. When the client id or the client secret is absent from the environment, each of
  scan, reply, warmup and status returns an object holding an error string, and the
  service is left as it was: no request has been sent.
\<close>

theorem unconfigured_returns_error:
  assumes "e ''REDDIT_CLIENT_ID'' = None \<or> e ''REDDIT_CLIENT_SECRET'' = None"
  shows "(\<exists>doc. scan_opportunities e w subreddits keywords limit = (Inr doc, w)
            \<and> dict_get doc ''error''
                = Some (JStr (''Reddit credentials not configured. ''
                              @ ''Set REDDIT_CLIENT_ID and REDDIT_CLIENT_SECRET.'')))
       \<and> (\<exists>doc. reply_to_post e w pid reply_text dry_run = (Inr doc, w)
            \<and> dict_get doc ''error'' = Some (JStr ''Reddit credentials not configured.''))
       \<and> (\<exists>doc. warmup_actions e w = (Inr doc, w)
            \<and> dict_get doc ''error'' = Some (JStr ''Reddit credentials not configured.''))
       \<and> (\<exists>doc. check_status e w = (Inr doc, w)
            \<and> dict_get doc ''error'' = Some (JStr ''Reddit credentials not configured.''))"
  using get_reddit_absent [OF assms, of w]
  by (simp add: scan_opportunities_def reply_to_post_def warmup_actions_def check_status_def
      error_object_def)

theorem unconfigured_returns_error_witness:
  "no_secret_env ''REDDIT_CLIENT_SECRET'' = None
   \<and> (\<exists>doc. scan_opportunities no_secret_env demo_world None None 25 = (Inr doc, demo_world)
          \<and> dict_get doc ''error''
              = Some (JStr (''Reddit credentials not configured. ''
                            @ ''Set REDDIT_CLIENT_ID and REDDIT_CLIENT_SECRET.'')))
   \<and> (\<exists>doc. reply_to_post no_secret_env demo_world ''p3'' ''hello'' False = (Inr doc, demo_world)
          \<and> dict_get doc ''error'' = Some (JStr ''Reddit credentials not configured.''))
   \<and> (\<exists>doc. warmup_actions no_secret_env demo_world = (Inr doc, demo_world)
          \<and> dict_get doc ''error'' = Some (JStr ''Reddit credentials not configured.''))
   \<and> (\<exists>doc. check_status no_secret_env demo_world = (Inr doc, demo_world)
          \<and> dict_get doc ''error'' = Some (JStr ''Reddit credentials not configured.''))
   \<and> requests demo_world = []"
proof -
  have h: "no_secret_env ''REDDIT_CLIENT_ID'' = None \<or> no_secret_env ''REDDIT_CLIENT_SECRET'' = None"
    by (simp add: no_secret_env_def)
  have n: "no_secret_env ''REDDIT_CLIENT_SECRET'' = None"
    by (simp add: no_secret_env_def)
  have q: "requests demo_world = []"
    by (simp add: demo_world_def)
  show ?thesis
    using unconfigured_returns_error [OF h, of demo_world None None 25 "''p3''" "''hello''" False]
      n q
    by blast
qed

subsection \<open>Account status\<close>

text \<open>
  Claim C6. For a configured handle whose profile request returns a profile with link karma
  \<open>L\<close> and comment karma \<open>C\<close>, the status operation returns \<open>total_karma = L + C\<close> and
  \<open>ready_for_action\<close> true exactly when \<open>C \<ge> 50\<close>; the total plays no part in it.
\<close>

theorem check_status_karma:
  assumes "get_reddit e w = Inr (Some r)" and "user_me w = Inr (Some me)"
  shows "\<exists>doc. fst (check_status e w) = Inr doc
           \<and> dict_get doc ''total_karma'' = Some (JInt (r_link_karma me + r_comment_karma me))
           \<and> dict_get doc ''ready_for_action'' = Some (JBool (50 \<le> r_comment_karma me))"
  using assms by (simp add: check_status_def check_status_body_def fetch_me_def)

text \<open>The example of the specification: \<open>L = 40\<close> and \<open>C = 15\<close> give 55 and not ready.\<close>

theorem check_status_karma_witness:
  "get_reddit demo_env demo_world = Inr (Some demo_handle) \<and> user_me demo_world = Inr (Some demo_me)
   \<and> r_link_karma demo_me = 40 \<and> r_comment_karma demo_me = 15
   \<and> (\<exists>doc. fst (check_status demo_env demo_world) = Inr doc
           \<and> dict_get doc ''total_karma'' = Some (JInt 55)
           \<and> dict_get doc ''ready_for_action'' = Some (JBool False))"
proof -
  note r = get_reddit_demo
  have me: "user_me demo_world = Inr (Some demo_me)"
    by (simp add: demo_world_def)
  show ?thesis
    using check_status_karma [OF r me] r me by (simp add: demo_me_def)
qed

subsection \<open>Scan\<close>

text \<open>The substring test computes the substring relation.\<close>

lemma startswith_iff: "startswith s p \<longleftrightarrow> (\<exists>suf. s = p @ suf)"
  by (induction s p rule: startswith.induct) auto

lemma str_in_iff: "str_in kw t \<longleftrightarrow> (\<exists>pre suf. t = pre @ kw @ suf)"
proof (induction t)
  case Nil
  then show ?case by auto
next
  case (Cons c cs)
  show ?case
  proof
    assume "str_in kw (c # cs)"
    then consider "startswith (c # cs) kw" | "str_in kw cs" by auto
    then show "\<exists>pre suf. c # cs = pre @ kw @ suf"
    proof cases
      case 1
      then obtain suf where "c # cs = kw @ suf" by (auto simp: startswith_iff)
      then have "c # cs = [] @ kw @ suf" by simp
      then show ?thesis by blast
    next
      case 2
      then obtain pre suf where "cs = pre @ kw @ suf" using Cons.IH by blast
      then have "c # cs = (c # pre) @ kw @ suf" by simp
      then show ?thesis by blast
    qed
  next
    assume "\<exists>pre suf. c # cs = pre @ kw @ suf"
    then obtain pre suf where eq: "c # cs = pre @ kw @ suf" by blast
    show "str_in kw (c # cs)"
    proof (cases pre)
      case Nil
      with eq have "startswith (c # cs) kw" by (auto simp: startswith_iff)
      then show ?thesis by simp
    next
      case (Cons d ds)
      with eq have "cs = ds @ kw @ suf" by simp
      then have "str_in kw cs" using Cons.IH by blast
      then show ?thesis by simp
    qed
  qed
qed

lemma scan_posts_acc:
  "scan_posts w kws s ps results = results @ scan_posts w kws s ps []"
proof (induction ps arbitrary: results)
  case Nil
  then show ?case by simp
next
  case (Cons p ps)
  show ?case
    using Cons.IH [of "results @ [post_record w s p (matched_keywords kws p)]"]
      Cons.IH [of "[post_record w s p (matched_keywords kws p)]"] Cons.IH [of results]
    by (simp add: Let_def)
qed

lemma scan_posts_eq:
  "scan_posts w kws s ps [] =
     map (\<lambda>p. post_record w s p (matched_keywords kws p))
         (filter (\<lambda>p. matched_keywords kws p \<noteq> []) ps)"
proof (induction ps)
  case Nil
  then show ?case by simp
next
  case (Cons p ps)
  then show ?case
    using scan_posts_acc [of w kws s ps "[post_record w s p (matched_keywords kws p)]"]
    by (simp add: Let_def)
qed

lemma scan_sub_eq:
  "scan_sub w kws limit s results = results @ sub_hits w kws limit s @ sub_errors w limit s"
proof (cases "new_listing w s limit")
  case (Pair posts failure)
  then show ?thesis
    using scan_posts_acc [of w kws s posts results]
    by (simp add: scan_sub_def sub_hits_def sub_errors_def scan_posts_eq Let_def
        split: option.split)
qed

lemma post_record_sent [simp]: "post_record (sent r w) = post_record w"
  by (simp add: post_record_def sent_def fun_eq_iff)

lemma new_listing_sent [simp]: "new_listing (sent r w) = new_listing w"
  by (simp add: sent_def)

lemma sub_hits_sent [simp]: "sub_hits (sent r w) = sub_hits w"
  by (simp add: sub_hits_def fun_eq_iff)

lemma sub_errors_sent [simp]: "sub_errors (sent r w) = sub_errors w"
  by (simp add: sub_errors_def fun_eq_iff)

lemma requests_sent [simp]: "requests (sent r w) = requests w @ [r]"
  by (simp add: sent_def)

lemma scan_subs_results:
  "fst (scan_subs w kws limit subs results) =
     results @ concat (map (\<lambda>s. sub_hits w kws limit s @ sub_errors w limit s) subs)"
  by (induction subs arbitrary: w results) (simp_all add: scan_sub_eq)

lemma scan_subs_world:
  "snd (scan_subs w kws limit subs results) =
     w\<lparr>requests := requests w @ map (\<lambda>s. ListNew s limit) subs\<rparr>"
  by (induction subs arbitrary: w results) (simp_all add: sent_def)

lemma scan_configured:
  assumes "get_reddit e w = Inr (Some r)"
  shows "scan_opportunities e w subreddits keywords limit =
     (Inr (JList (sort_by_recency
        (concat (map (\<lambda>s. sub_hits w (list_or keywords PAIN_KEYWORDS) limit s @ sub_errors w limit s)
                     (list_or subreddits DEFAULT_SUBS))))),
      w\<lparr>requests := requests w @ map (\<lambda>s. ListNew s limit) (list_or subreddits DEFAULT_SUBS)\<rparr>)"
proof -
  let ?kws = "list_or keywords PAIN_KEYWORDS" and ?subs = "list_or subreddits DEFAULT_SUBS"
  have "scan_subs w ?kws limit ?subs [] =
          (fst (scan_subs w ?kws limit ?subs []), snd (scan_subs w ?kws limit ?subs []))"
    by simp
  then show ?thesis
    using assms unfolding scan_subs_results scan_subs_world
    by (simp add: scan_opportunities_def Let_def)
qed

lemma set_sort_by_recency [simp]: "set (sort_by_recency xs) = set xs"
  by (simp add: sort_by_recency_def)

lemma length_sort_by_recency [simp]: "length (sort_by_recency xs) = length xs"
  by (simp add: sort_by_recency_def)

lemma sort_by_recency_descending:
  assumes "i < j" and "j < length (sort_by_recency xs)"
  shows "created_key (sort_by_recency xs ! j) \<le> created_key (sort_by_recency xs ! i)"
proof -
  let ?ys = "sort_by_recency xs"
  have "sorted (map (\<lambda>x. - created_key x) ?ys)"
    by (simp add: sort_by_recency_def)
  then have "map (\<lambda>x. - created_key x) ?ys ! i \<le> map (\<lambda>x. - created_key x) ?ys ! j"
    using assms by (simp add: sorted_iff_nth_mono)
  then show ?thesis using assms by simp
qed

lemma created_key_absent: "dict_get x ''created_utc'' = None \<Longrightarrow> created_key x = 0"
  by (simp add: created_key_def)

lemma created_key_post_record [simp]:
  "created_key (post_record w s p m) = post_created_utc p"
  by (simp add: created_key_def post_record_def)

lemma created_utc_post_record [simp]:
  "dict_get (post_record w s p m) ''created_utc'' = Some (JNum (post_created_utc p))"
  by (simp add: post_record_def)

lemma keywords_post_record [simp]:
  "dict_get (post_record w s p m) ''keywords_matched'' = Some (JList (map JStr m))"
  by (simp add: post_record_def)

lemma post_record_matched_inj:
  assumes "post_record w s p m = post_record w' s' p' m'"
  shows "m = m'"
proof -
  have "dict_get (post_record w s p m) ''keywords_matched''
          = dict_get (post_record w' s' p' m') ''keywords_matched''"
    using assms by simp
  then have "map JStr m = map JStr m'" by simp
  then show ?thesis by (simp add: inj_on_def inj_map_eq_map [of JStr, unfolded inj_on_def])
qed

lemma scan_failure_not_post_record [simp]:
  "scan_failure s' msg \<noteq> post_record w s p m" "post_record w s p m \<noteq> scan_failure s' msg"
  by (simp_all add: scan_failure_def error_object_def post_record_def)

lemma created_utc_scan_failure [simp]: "dict_get (scan_failure s m) ''created_utc'' = None"
  by (simp add: scan_failure_def error_object_def)

lemma matched_keywords_nonempty:
  "matched_keywords kws p \<noteq> [] \<longleftrightarrow> (\<exists>kw \<in> set kws. str_in kw (post_text p))"
  by (auto simp: matched_keywords_def filter_empty_conv)

lemma in_sub_hits:
  "x \<in> set (sub_hits w kws limit s) \<longleftrightarrow>
     (\<exists>p \<in> set (fst (new_listing w s limit)).
        matched_keywords kws p \<noteq> [] \<and> x = post_record w s p (matched_keywords kws p))"
  by (auto simp: sub_hits_def)

lemma in_sub_errors:
  "x \<in> set (sub_errors w limit s) \<longleftrightarrow>
     (\<exists>m. snd (new_listing w s limit) = Some m \<and> x = scan_failure s m)"
  by (cases "snd (new_listing w s limit)") (auto simp: sub_errors_def)

lemma post_record_in_results:
  "post_record w s p (matched_keywords kws p)
     \<in> set (concat (map (\<lambda>s. sub_hits w kws limit s @ sub_errors w limit s) subs))
   \<Longrightarrow> matched_keywords kws p \<noteq> []"
proof -
  assume "post_record w s p (matched_keywords kws p)
     \<in> set (concat (map (\<lambda>s. sub_hits w kws limit s @ sub_errors w limit s) subs))"
  then obtain s' where "s' \<in> set subs"
    and "post_record w s p (matched_keywords kws p) \<in> set (sub_hits w kws limit s')
         \<or> post_record w s p (matched_keywords kws p) \<in> set (sub_errors w limit s')"
    by auto
  then obtain p' where "matched_keywords kws p' \<noteq> []"
    and "post_record w s p (matched_keywords kws p) = post_record w s' p' (matched_keywords kws p')"
    by (auto simp: in_sub_hits in_sub_errors)
  then show ?thesis using post_record_matched_inj by metis
qed

lemma demo_scan_saas:
  "fst (scan_opportunities demo_env demo_world (Some [''SaaS'', ''private'', ''startups'']) None 25)
     = Inr (JList [post_record demo_world ''startups'' ai_post
                     [''automation'', ''ai tool'', ''browser automation''],
                   post_record demo_world ''SaaS'' price_post [''looking for'', ''price tracking''],
                   scan_failure ''private'' ''received 403 HTTP response''])"
  by code_simp

lemma demo_scan_requests:
  "requests (snd (scan_opportunities demo_env demo_world (Some [''SaaS'', ''private'', ''startups'']) None 25))
     = [ListNew ''SaaS'' 25, ListNew ''private'' 25, ListNew ''startups'' 25]"
  by code_simp

lemma demo_matched_price:
  "matched_keywords PAIN_KEYWORDS price_post = [''looking for'', ''price tracking'']"
  by code_simp

lemma demo_requests: "requests demo_world = []"
  by (simp add: demo_world_def)

lemma demo_listing_saas: "new_listing demo_world ''SaaS'' 25 = ([price_post], None)"
  by (simp add: demo_world_def)

lemma demo_listing_private:
  "new_listing demo_world ''private'' 25 = ([], Some ''received 403 HTTP response'')"
  by (simp add: demo_world_def)

text \<open>
  Claim C1, as the code has it. The keyword list in force is the given one, or the default
  keywords when none or an empty one is given. A post that a scanned subreddit's listing
  yields has its record in the scan output if and only if at least one keyword of that list
  occurs, as it is written, as a substring of the lower-cased title, a space and the body;
  the record's \<open>keywords_matched\<close> field holds exactly the keywords that so occur, in list
  order. For keywords written in lower case this is occurrence without regard to case.
\<close>

theorem scan_includes_matching_posts:
  assumes "get_reddit e w = Inr (Some r)"
    and "kws = list_or keywords PAIN_KEYWORDS"
    and "s \<in> set (list_or subreddits DEFAULT_SUBS)"
    and "p \<in> set (fst (new_listing w s limit))"
    and "t = post_title p @ '' '' @ or_else (post_selftext p) []"
  shows "\<exists>results. fst (scan_opportunities e w subreddits keywords limit) = Inr (JList results)
     \<and> ((post_record w s p (matched_keywords kws p) \<in> set results)
          = (\<exists>kw \<in> set kws. \<exists>pre suf. lower t = pre @ kw @ suf))
     \<and> dict_get (post_record w s p (matched_keywords kws p)) ''keywords_matched''
          = Some (JList (map JStr (filter (\<lambda>kw. \<exists>pre suf. lower t = pre @ kw @ suf) kws)))
     \<and> ((\<forall>kw \<in> set kws. lower kw = kw) \<longrightarrow>
           (post_record w s p (matched_keywords kws p) \<in> set results)
             = (\<exists>kw \<in> set kws. ci_occurs kw t))"
proof -
  let ?subs = "list_or subreddits DEFAULT_SUBS"
  let ?all = "concat (map (\<lambda>s. sub_hits w kws limit s @ sub_errors w limit s) ?subs)"
  let ?rec = "post_record w s p (matched_keywords kws p)"
  have ptext: "post_text p = lower t"
    using assms(5) by (simp add: post_text_def)
  have res: "fst (scan_opportunities e w subreddits keywords limit) = Inr (JList (sort_by_recency ?all))"
    using assms(1,2) by (simp add: scan_configured)
  have incl: "(?rec \<in> set (sort_by_recency ?all)) = (matched_keywords kws p \<noteq> [])"
  proof
    assume "?rec \<in> set (sort_by_recency ?all)"
    then show "matched_keywords kws p \<noteq> []"
      using post_record_in_results by simp
  next
    assume "matched_keywords kws p \<noteq> []"
    then have "?rec \<in> set (sub_hits w kws limit s)"
      using assms(4) by (auto simp: in_sub_hits)
    then show "?rec \<in> set (sort_by_recency ?all)"
      using assms(3) by auto
  qed
  have occ: "(matched_keywords kws p \<noteq> []) = (\<exists>kw \<in> set kws. \<exists>pre suf. lower t = pre @ kw @ suf)"
    by (simp add: matched_keywords_nonempty ptext str_in_iff)
  have field: "matched_keywords kws p = filter (\<lambda>kw. \<exists>pre suf. lower t = pre @ kw @ suf) kws"
    by (simp add: matched_keywords_def ptext str_in_iff)
  have ci: "(\<forall>kw \<in> set kws. lower kw = kw) \<longrightarrow>
              (matched_keywords kws p \<noteq> []) = (\<exists>kw \<in> set kws. ci_occurs kw t)"
    by (auto simp: matched_keywords_nonempty ptext ci_occurs_def)
  show ?thesis
    using res incl occ field ci by (simp del: set_concat)
qed

theorem scan_includes_matching_posts_witness:
  "get_reddit demo_env demo_world = Inr (Some demo_handle)
   \<and> ''SaaS'' \<in> set (list_or (Some [''SaaS'', ''private'', ''startups'']) DEFAULT_SUBS)
   \<and> price_post \<in> set (fst (new_listing demo_world ''SaaS'' 25))
   \<and> map lower PAIN_KEYWORDS = PAIN_KEYWORDS
   \<and> (\<exists>results.
         fst (scan_opportunities demo_env demo_world (Some [''SaaS'', ''private'', ''startups'']) None 25)
           = Inr (JList results)
         \<and> post_record demo_world ''SaaS'' price_post [''looking for'', ''price tracking'']
             \<in> set results
         \<and> (\<exists>kw \<in> set PAIN_KEYWORDS. \<exists>pre suf.
               lower (post_title price_post @ '' '' @ or_else (post_selftext price_post) [])
                 = pre @ kw @ suf)
         \<and> (\<exists>kw \<in> set PAIN_KEYWORDS.
               ci_occurs kw (post_title price_post @ '' '' @ or_else (post_selftext price_post) [])))"
proof -
  let ?t = "post_title price_post @ '' '' @ or_else (post_selftext price_post) []"
  let ?rec = "post_record demo_world ''SaaS'' price_post (matched_keywords PAIN_KEYWORDS price_post)"
  note r = get_reddit_demo
  have k: "PAIN_KEYWORDS = list_or None PAIN_KEYWORDS"
    by simp
  have s: "''SaaS'' \<in> set (list_or (Some [''SaaS'', ''private'', ''startups'']) DEFAULT_SUBS)"
    by simp
  have p: "price_post \<in> set (fst (new_listing demo_world ''SaaS'' 25))"
    by (simp add: demo_listing_saas)
  have l: "\<forall>kw \<in> set PAIN_KEYWORDS. lower kw = kw"
    by code_simp
  have l': "map lower PAIN_KEYWORDS = PAIN_KEYWORDS"
    by code_simp
  have m: "?rec \<in> set [post_record demo_world ''startups'' ai_post
                     [''automation'', ''ai tool'', ''browser automation''],
                   post_record demo_world ''SaaS'' price_post [''looking for'', ''price tracking''],
                   scan_failure ''private'' ''received 403 HTTP response'']"
    by (simp add: demo_matched_price)
  from scan_includes_matching_posts [OF r k s p refl]
  obtain results where
    a: "fst (scan_opportunities demo_env demo_world (Some [''SaaS'', ''private'', ''startups'']) None 25)
          = Inr (JList results)"
    and b: "(?rec \<in> set results) = (\<exists>kw \<in> set PAIN_KEYWORDS. \<exists>pre suf. lower ?t = pre @ kw @ suf)"
    and ci: "(\<forall>kw \<in> set PAIN_KEYWORDS. lower kw = kw) \<longrightarrow>
               (?rec \<in> set results) = (\<exists>kw \<in> set PAIN_KEYWORDS. ci_occurs kw ?t)"
    by blast
  from a have "results = [post_record demo_world ''startups'' ai_post
                     [''automation'', ''ai tool'', ''browser automation''],
                   post_record demo_world ''SaaS'' price_post [''looking for'', ''price tracking''],
                   scan_failure ''private'' ''received 403 HTTP response'']"
    by (simp add: demo_scan_saas)
  with m have c: "?rec \<in> set results"
    by simp
  with b have d: "\<exists>kw \<in> set PAIN_KEYWORDS. \<exists>pre suf. lower ?t = pre @ kw @ suf"
    by simp
  from c ci l have f: "\<exists>kw \<in> set PAIN_KEYWORDS. ci_occurs kw ?t"
    by simp
  from c have c': "post_record demo_world ''SaaS'' price_post [''looking for'', ''price tracking'']
             \<in> set results"
    by (simp add: demo_matched_price)
  show ?thesis
    using r s p l' a c' d f by blast
qed

text \<open>
  The claim as stated fails in two ways: the keyword \<open>AI\<close> occurs in the title
  \<open>AI tool for browser automation\<close> without regard to case, yet the post is left out,
  because only the text is lower-cased; and with the empty keyword list, none of whose
  keywords can occur, the post is included, because the default keywords are used.
\<close>

theorem scan_includes_matching_posts_counterexample:
  "ci_occurs ''AI'' (post_title ai_post @ '' '' @ or_else (post_selftext ai_post) [])
   \<and> fst (scan_opportunities demo_env demo_world (Some [''startups'']) (Some [''AI'']) 25)
       = Inr (JList [])
   \<and> fst (scan_opportunities demo_env demo_world (Some [''startups'']) (Some []) 25)
       = Inr (JList [post_record demo_world ''startups'' ai_post
                       [''automation'', ''ai tool'', ''browser automation'']])"
  by code_simp

lemma created_key_num: "dict_get x ''created_utc'' = Some (JNum t) \<Longrightarrow> created_key x = t"
  by (simp add: created_key_def)

lemma timestamped_result_positive:
  assumes "\<forall>s \<in> set subs. \<forall>p \<in> set (fst (new_listing w s limit)). 0 < post_created_utc p"
    and "x \<in> set (concat (map (\<lambda>s. sub_hits w kws limit s @ sub_errors w limit s) subs))"
    and "dict_get x ''created_utc'' \<noteq> None"
  shows "0 < created_key x"
proof -
  obtain s where s: "s \<in> set subs"
    and x: "x \<in> set (sub_hits w kws limit s) \<or> x \<in> set (sub_errors w limit s)"
    using assms(2) by auto
  from x show ?thesis
  proof
    assume "x \<in> set (sub_hits w kws limit s)"
    then obtain p where "p \<in> set (fst (new_listing w s limit))"
      and "x = post_record w s p (matched_keywords kws p)"
      by (auto simp: in_sub_hits)
    then show ?thesis using assms(1) s by simp
  next
    assume "x \<in> set (sub_errors w limit s)"
    then show ?thesis using assms(3) by (auto simp: in_sub_errors)
  qed
qed

text \<open>
  Claim C5. For a configured scan whose fetched posts have positive creation timestamps
  (seconds since 1970, as the service delivers them), the result list is non-increasing
  in the creation timestamp, and every record without a creation timestamp (the error
  records of failed subreddits among them) comes after every record that has one. The
  list is also non-increasing in the sort key, which is 0 for a record without a
  timestamp.
\<close>

theorem scan_sorted_by_recency:
  assumes "get_reddit e w = Inr (Some r)"
    and "\<forall>s \<in> set (list_or subreddits DEFAULT_SUBS).
           \<forall>p \<in> set (fst (new_listing w s limit)). 0 < post_created_utc p"
  shows "\<exists>results. fst (scan_opportunities e w subreddits keywords limit) = Inr (JList results)
     \<and> (\<forall>i j ti tj. i < j \<and> j < length results
              \<and> dict_get (results ! i) ''created_utc'' = Some (JNum ti)
              \<and> dict_get (results ! j) ''created_utc'' = Some (JNum tj)
            \<longrightarrow> tj \<le> ti)
     \<and> (\<forall>i j. i < length results \<and> j < length results
              \<and> dict_get (results ! i) ''created_utc'' = None
              \<and> dict_get (results ! j) ''created_utc'' \<noteq> None
            \<longrightarrow> j < i)
     \<and> (\<forall>i j. i < j \<and> j < length results
            \<longrightarrow> created_key (results ! j) \<le> created_key (results ! i))"
proof -
  let ?all = "concat (map (\<lambda>s. sub_hits w (list_or keywords PAIN_KEYWORDS) limit s @ sub_errors w limit s)
                          (list_or subreddits DEFAULT_SUBS))"
  let ?res = "sort_by_recency ?all"
  have res: "fst (scan_opportunities e w subreddits keywords limit) = Inr (JList ?res)"
    using assms(1) by (simp add: scan_configured)
  have desc: "\<forall>i j. i < j \<and> j < length ?res \<longrightarrow> created_key (?res ! j) \<le> created_key (?res ! i)"
    using sort_by_recency_descending by blast
  have stamps: "tj \<le> ti" if "i < j" "j < length ?res"
    "dict_get (?res ! i) ''created_utc'' = Some (JNum ti)"
    "dict_get (?res ! j) ''created_utc'' = Some (JNum tj)" for i j ti tj
  proof -
    have "created_key (?res ! j) \<le> created_key (?res ! i)"
      using desc that(1,2) by blast
    then show ?thesis
      using created_key_num [OF that(3)] created_key_num [OF that(4)] by simp
  qed
  have behind: "j < i" if "i < length ?res" "j < length ?res"
    "dict_get (?res ! i) ''created_utc'' = None" "dict_get (?res ! j) ''created_utc'' \<noteq> None" for i j
  proof (rule ccontr)
    have "?res ! j \<in> set ?all"
      using that(2) nth_mem [of j ?res] by simp
    then have pos: "0 < created_key (?res ! j)"
      using timestamped_result_positive [OF assms(2)] that(4) by blast
    have zero: "created_key (?res ! i) = 0"
      using that(3) by (rule created_key_absent)
    assume "\<not> j < i"
    then consider "i = j" | "i < j" by linarith
    then show False
    proof cases
      case 1
      then show ?thesis using pos zero by simp
    next
      case 2
      then have "created_key (?res ! j) \<le> created_key (?res ! i)"
        using desc that(2) by blast
      then show ?thesis using pos zero by simp
    qed
  qed
  show ?thesis
  proof (intro exI conjI)
    show "fst (scan_opportunities e w subreddits keywords limit) = Inr (JList ?res)"
      by (rule res)
    show "\<forall>i j ti tj. i < j \<and> j < length ?res
              \<and> dict_get (?res ! i) ''created_utc'' = Some (JNum ti)
              \<and> dict_get (?res ! j) ''created_utc'' = Some (JNum tj)
            \<longrightarrow> tj \<le> ti"
      using stamps by blast
    show "\<forall>i j. i < length ?res \<and> j < length ?res
              \<and> dict_get (?res ! i) ''created_utc'' = None
              \<and> dict_get (?res ! j) ''created_utc'' \<noteq> None
            \<longrightarrow> j < i"
      using behind by blast
    show "\<forall>i j. i < j \<and> j < length ?res
            \<longrightarrow> created_key (?res ! j) \<le> created_key (?res ! i)"
      by (rule desc)
  qed
qed

theorem scan_sorted_by_recency_witness:
  "get_reddit demo_env demo_world = Inr (Some demo_handle)
   \<and> new_listing demo_world ''SaaS'' 25 = ([price_post], None)
   \<and> new_listing demo_world ''private'' 25 = ([], Some ''received 403 HTTP response'')
   \<and> new_listing demo_world ''startups'' 25 = ([ai_post], None)
   \<and> 0 < post_created_utc price_post \<and> 0 < post_created_utc ai_post
   \<and> (\<exists>results.
        fst (scan_opportunities demo_env demo_world (Some [''SaaS'', ''private'', ''startups'']) None 25)
          = Inr (JList results)
        \<and> results = [post_record demo_world ''startups'' ai_post
                        [''automation'', ''ai tool'', ''browser automation''],
                      post_record demo_world ''SaaS'' price_post [''looking for'', ''price tracking''],
                      scan_failure ''private'' ''received 403 HTTP response'']
        \<and> (\<forall>i j ti tj. i < j \<and> j < length results
              \<and> dict_get (results ! i) ''created_utc'' = Some (JNum ti)
              \<and> dict_get (results ! j) ''created_utc'' = Some (JNum tj)
            \<longrightarrow> tj \<le> ti)
        \<and> (\<forall>i j. i < length results \<and> j < length results
                 \<and> dict_get (results ! i) ''created_utc'' = None
                 \<and> dict_get (results ! j) ''created_utc'' \<noteq> None
               \<longrightarrow> j < i))"
proof -
  note r = get_reddit_demo
  have l1: "new_listing demo_world ''SaaS'' 25 = ([price_post], None)"
    and l2: "new_listing demo_world ''private'' 25 = ([], Some ''received 403 HTTP response'')"
    and l3: "new_listing demo_world ''startups'' 25 = ([ai_post], None)"
    by (simp_all add: demo_world_def)
  have t: "0 < post_created_utc price_post \<and> 0 < post_created_utc ai_post"
    by (simp add: price_post_def ai_post_def)
  have h: "\<forall>s \<in> set (list_or (Some [''SaaS'', ''private'', ''startups'']) DEFAULT_SUBS).
             \<forall>p \<in> set (fst (new_listing demo_world s 25)). 0 < post_created_utc p"
    using l1 l2 l3 t by simp
  from scan_sorted_by_recency [OF r h, of None]
  obtain results where
    a: "fst (scan_opportunities demo_env demo_world (Some [''SaaS'', ''private'', ''startups'']) None 25)
          = Inr (JList results)"
    and b: "\<forall>i j ti tj. i < j \<and> j < length results
              \<and> dict_get (results ! i) ''created_utc'' = Some (JNum ti)
              \<and> dict_get (results ! j) ''created_utc'' = Some (JNum tj)
            \<longrightarrow> tj \<le> ti"
    and c: "\<forall>i j. i < length results \<and> j < length results
                 \<and> dict_get (results ! i) ''created_utc'' = None
                 \<and> dict_get (results ! j) ''created_utc'' \<noteq> None
               \<longrightarrow> j < i"
    by blast
  from a have d: "results = [post_record demo_world ''startups'' ai_post
                        [''automation'', ''ai tool'', ''browser automation''],
                      post_record demo_world ''SaaS'' price_post [''looking for'', ''price tracking''],
                      scan_failure ''private'' ''received 403 HTTP response'']"
    by (simp add: demo_scan_saas)
  show ?thesis
    using r l1 l2 l3 t a b c d by blast
qed

lemma scan_failure_field [simp]:
  "dict_get (scan_failure s m) ''error'' = Some (JStr (''Failed to scan r/'' @ s @ '': '' @ m))"
  by (simp add: scan_failure_def error_object_def)

lemma post_record_fields [simp]:
  "dict_get (post_record w s p m) ''id'' = Some (JStr (post_id p))"
  "dict_get (post_record w s p m) ''subreddit'' = Some (JStr s)"
  by (simp_all add: post_record_def)

text \<open>
  Claim C8. In a configured scan every subreddit of the list is requested, in list order,
  whether or not an earlier one failed; a subreddit whose listing raises with message \<open>m\<close>
  leaves a record whose \<open>error\<close> field is \<open>Failed to scan r/\<close>, the subreddit's name, a
  colon and \<open>m\<close>; and every matching post that any subreddit's listing yielded has its
  record, with its id, its subreddit and its matched keywords, in the output.
\<close>

theorem scan_survives_failed_subreddit:
  assumes "get_reddit e w = Inr (Some r)"
    and "subs = list_or subreddits DEFAULT_SUBS"
    and "kws = list_or keywords PAIN_KEYWORDS"
  shows "\<exists>results. fst (scan_opportunities e w subreddits keywords limit) = Inr (JList results)
     \<and> requests (snd (scan_opportunities e w subreddits keywords limit))
         = requests w @ map (\<lambda>s. ListNew s limit) subs
     \<and> (\<forall>s m. s \<in> set subs \<and> snd (new_listing w s limit) = Some m
            \<longrightarrow> (\<exists>x \<in> set results.
                   dict_get x ''error'' = Some (JStr (''Failed to scan r/'' @ s @ '': '' @ m))))
     \<and> (\<forall>s p. s \<in> set subs \<and> p \<in> set (fst (new_listing w s limit))
              \<and> matched_keywords kws p \<noteq> []
            \<longrightarrow> post_record w s p (matched_keywords kws p) \<in> set results
              \<and> (\<exists>x \<in> set results.
                    dict_get x ''id'' = Some (JStr (post_id p))
                    \<and> dict_get x ''subreddit'' = Some (JStr s)
                    \<and> dict_get x ''keywords_matched''
                        = Some (JList (map JStr (matched_keywords kws p)))))"
proof -
  let ?all = "concat (map (\<lambda>s. sub_hits w kws limit s @ sub_errors w limit s) subs)"
  have res: "scan_opportunities e w subreddits keywords limit =
     (Inr (JList (sort_by_recency ?all)),
      w\<lparr>requests := requests w @ map (\<lambda>s. ListNew s limit) subs\<rparr>)"
    using assms by (simp add: scan_configured)
  have errs: "\<exists>x \<in> set (sort_by_recency ?all).
                dict_get x ''error'' = Some (JStr (''Failed to scan r/'' @ s @ '': '' @ m))"
    if "s \<in> set subs" "snd (new_listing w s limit) = Some m" for s m
  proof -
    have "scan_failure s m \<in> set (sort_by_recency ?all)"
      using that by (auto simp: in_sub_errors)
    then show ?thesis
      using scan_failure_field by blast
  qed
  have hits: "post_record w s p (matched_keywords kws p) \<in> set (sort_by_recency ?all)"
    if "s \<in> set subs" "p \<in> set (fst (new_listing w s limit))" "matched_keywords kws p \<noteq> []"
    for s p
    using that by (auto simp: in_sub_hits)
  have fields: "\<exists>x \<in> set (sort_by_recency ?all).
                    dict_get x ''id'' = Some (JStr (post_id p))
                    \<and> dict_get x ''subreddit'' = Some (JStr s)
                    \<and> dict_get x ''keywords_matched''
                        = Some (JList (map JStr (matched_keywords kws p)))"
    if "s \<in> set subs" "p \<in> set (fst (new_listing w s limit))" "matched_keywords kws p \<noteq> []"
    for s p
    using hits [OF that] post_record_fields keywords_post_record by blast
  show ?thesis
    unfolding res using errs hits fields by simp
qed

theorem scan_survives_failed_subreddit_witness:
  "get_reddit demo_env demo_world = Inr (Some demo_handle)
   \<and> snd (new_listing demo_world ''private'' 25) = Some ''received 403 HTTP response''
   \<and> (\<exists>results.
        fst (scan_opportunities demo_env demo_world (Some [''SaaS'', ''private'', ''startups'']) None 25)
          = Inr (JList results)
        \<and> requests (snd (scan_opportunities demo_env demo_world
                           (Some [''SaaS'', ''private'', ''startups'']) None 25))
            = [ListNew ''SaaS'' 25, ListNew ''private'' 25, ListNew ''startups'' 25]
        \<and> (\<exists>x \<in> set results.
              dict_get x ''error''
                = Some (JStr (''Failed to scan r/'' @ ''private'' @ '': ''
                              @ ''received 403 HTTP response''))))"
proof -
  note r = get_reddit_demo
  have s: "[''SaaS'', ''private'', ''startups''] = list_or (Some [''SaaS'', ''private'', ''startups'']) DEFAULT_SUBS"
    by simp
  have k: "PAIN_KEYWORDS = list_or None PAIN_KEYWORDS"
    by simp
  have f: "snd (new_listing demo_world ''private'' 25) = Some ''received 403 HTTP response''"
    by (simp add: demo_listing_private)
  from scan_survives_failed_subreddit [OF r s k, where limit = 25]
  obtain results where
    a: "fst (scan_opportunities demo_env demo_world (Some [''SaaS'', ''private'', ''startups'']) None 25)
          = Inr (JList results)"
    and b: "\<forall>s m. s \<in> set [''SaaS'', ''private'', ''startups'']
                \<and> snd (new_listing demo_world s 25) = Some m
              \<longrightarrow> (\<exists>x \<in> set results.
                     dict_get x ''error'' = Some (JStr (''Failed to scan r/'' @ s @ '': '' @ m)))"
    by blast
  have "''private'' \<in> set [''SaaS'', ''private'', ''startups'']"
    by simp
  with b f have c: "\<exists>x \<in> set results.
              dict_get x ''error''
                = Some (JStr (''Failed to scan r/'' @ ''private'' @ '': ''
                              @ ''received 403 HTTP response''))"
    by blast
  show ?thesis
    using r f a c demo_scan_requests by blast
qed

text \<open>
  Claim C10, as the code has it. A scan with an empty subreddit list is the scan with the
  eight default subreddits, and a scan with an empty keyword list is the scan with the
  default keywords, of which there are nineteen; with an empty subreddit list a configured
  scan requests the eight default subreddits.
\<close>

theorem empty_lists_mean_defaults:
  "scan_opportunities e w (Some []) keywords limit
     = scan_opportunities e w (Some DEFAULT_SUBS) keywords limit
   \<and> scan_opportunities e w subreddits (Some []) limit
     = scan_opportunities e w subreddits (Some PAIN_KEYWORDS) limit
   \<and> length DEFAULT_SUBS = 8 \<and> length PAIN_KEYWORDS = 19
   \<and> ((\<exists>r. get_reddit e w = Inr (Some r)) \<longrightarrow>
        requests (snd (scan_opportunities e w (Some []) keywords limit))
          = requests w @ map (\<lambda>s. ListNew s limit) DEFAULT_SUBS)"
proof -
  have a: "list_or (Some []) DEFAULT_SUBS = list_or (Some DEFAULT_SUBS) DEFAULT_SUBS"
    by simp
  have b: "list_or (Some []) PAIN_KEYWORDS = list_or (Some PAIN_KEYWORDS) PAIN_KEYWORDS"
    by simp
  have c: "length DEFAULT_SUBS = 8 \<and> length PAIN_KEYWORDS = 19"
    by (simp add: DEFAULT_SUBS_def PAIN_KEYWORDS_def)
  have d: "(\<exists>r. get_reddit e w = Inr (Some r)) \<longrightarrow>
        requests (snd (scan_opportunities e w (Some []) keywords limit))
          = requests w @ map (\<lambda>s. ListNew s limit) DEFAULT_SUBS"
    by (auto simp: scan_configured)
  show ?thesis
    using c d unfolding scan_opportunities_def a b by simp
qed

theorem empty_lists_mean_defaults_witness:
  "get_reddit demo_env demo_world = Inr (Some demo_handle)
   \<and> requests (snd (scan_opportunities demo_env demo_world (Some []) None 25))
       = map (\<lambda>s. ListNew s 25) DEFAULT_SUBS
   \<and> scan_opportunities demo_env demo_world (Some []) None 25
       = scan_opportunities demo_env demo_world (Some DEFAULT_SUBS) None 25"
proof -
  note th = empty_lists_mean_defaults [of demo_env demo_world None 25 None]
  have a: "scan_opportunities demo_env demo_world (Some []) None 25
       = scan_opportunities demo_env demo_world (Some DEFAULT_SUBS) None 25"
    using th by blast
  have "requests (snd (scan_opportunities demo_env demo_world (Some []) None 25))
       = requests demo_world @ map (\<lambda>s. ListNew s 25) DEFAULT_SUBS"
    using th get_reddit_demo by blast
  then have b: "requests (snd (scan_opportunities demo_env demo_world (Some []) None 25))
       = map (\<lambda>s. ListNew s 25) DEFAULT_SUBS"
    by (simp only: demo_requests append_Nil)
  show ?thesis
    using a b get_reddit_demo by blast
qed

text \<open>
  The default keyword list does not have eighteen entries, and a scan with the empty list
  differs from a scan with the first eighteen default keywords.
\<close>

theorem empty_lists_mean_defaults_counterexample:
  "length PAIN_KEYWORDS \<noteq> 18
   \<and> fst (scan_opportunities demo_env demo_world (Some [''startups'']) (Some []) 25)
       \<noteq> fst (scan_opportunities demo_env demo_world (Some [''startups''])
               (Some (take 18 PAIN_KEYWORDS)) 25)"
  by code_simp

subsection \<open>Reply\<close>

text \<open>
  After the placeholders are stripped, the flattened forest holds comments only, and the
  duplicate check finds exactly the loaded comments of the account.
\<close>

lemma replace_more_0_loaded: "c \<in> set (replace_more_0 c') \<Longrightarrow> loaded c"
  by (induction c' arbitrary: c rule: replace_more_0.induct) auto

lemma replace_more_0_authored:
  "(\<exists>c \<in> set (replace_more_0 c'). authored_loaded name c) = authored_loaded name c'"
  by (induction c' rule: replace_more_0.induct) auto

lemma any_authored_loaded:
  "\<forall>c \<in> set queue. loaded c \<Longrightarrow>
     any_authored name (comments_list queue) = Inr (\<exists>c \<in> set queue. authored_loaded name c)"
proof (induction queue rule: comments_list.induct)
  case 1
  then show ?case by simp
next
  case (2 a rs queue)
  then have "\<forall>c \<in> set (queue @ rs). loaded c" by auto
  then have "any_authored name (comments_list (queue @ rs))
               = Inr (\<exists>c \<in> set (queue @ rs). authored_loaded name c)"
    using 2 by blast
  then show ?case by auto
next
  case (3 hidden queue)
  then show ?case by simp
qed

lemma already_replied_eq:
  "any_authored name (comments_list (concat (map replace_more_0 forest)))
     = Inr (commented_loaded name forest)"
proof -
  let ?stripped = "concat (map replace_more_0 forest)"
  have "\<forall>c \<in> set ?stripped. loaded c"
    using replace_more_0_loaded by auto
  then have "any_authored name (comments_list ?stripped)
               = Inr (\<exists>c \<in> set ?stripped. authored_loaded name c)"
    by (rule any_authored_loaded)
  moreover have "(\<exists>c \<in> set ?stripped. authored_loaded name c) = commented_loaded name forest"
    using replace_more_0_authored [of _ name] by (auto simp: commented_loaded_def)
  ultimately show ?thesis by simp
qed

lemma authored_loaded_anywhere: "authored_loaded name c \<Longrightarrow> authored_anywhere name c"
  by (induction c rule: authored_loaded.induct) auto

lemma sent_sent:
  "sent b (sent a w) = w\<lparr>requests := requests w @ [a, b]\<rparr>"
  by (simp add: sent_def)

lemma reply_body_skipped:
  assumes "submissions w pid = Inr s" and "user_me w = Inr (Some me)"
    and "commented_loaded (r_name me) (sub_comments s)"
  shows "reply_body w pid reply_text dry_run =
           (Inr skipped_result, w\<lparr>requests := requests w @ [FetchSubmission pid, FetchMe]\<rparr>)"
proof -
  have "user_me (sent (FetchSubmission pid) w) = Inr (Some me)"
    using assms(2) by (simp add: sent_def)
  then show ?thesis
    using assms(1,3)
    by (simp add: reply_body_def Let_def fetch_me_def already_replied_eq skipped_result_def sent_sent)
qed

lemma submits_sent:
  "submits (sent r w) = submits w @ (if is_submit r then [r] else [])"
  by (simp add: submits_def sent_def)

lemma submissions_sent [simp]: "submissions (sent r w) = submissions w"
  by (simp add: sent_def)

lemma user_me_sent [simp]: "user_me (sent r w) = user_me w"
  by (simp add: sent_def)

lemma catch_all_snd [simp]: "snd (catch_all x) = snd x"
  by (cases x rule: catch_all.cases) simp_all

lemma printed_snd [simp]: "snd (printed x) = snd x"
  by (cases x rule: printed.cases) simp_all

lemma reply_body_dry_frame:
  "submits (snd (reply_body w pid reply_text True)) = submits w
   \<and> submissions (snd (reply_body w pid reply_text True)) = submissions w"
  by (simp add: reply_body_def Let_def fetch_me_def submits_sent is_submit_def
      split: sum.split option.split)

lemma reply_body_dry_status:
  "fst (reply_body w pid reply_text True) = Inr doc
     \<Longrightarrow> dict_get doc ''status'' \<noteq> Some (JStr ''replied'')"
  by (auto simp: reply_body_def Let_def fetch_me_def split: sum.splits option.splits if_splits)

lemma error_object_status [simp]: "dict_get (error_object m) ''status'' = None"
  by (simp add: error_object_def)

lemma catch_all_status:
  assumes "\<And>doc. fst x = Inr doc \<Longrightarrow> dict_get doc ''status'' \<noteq> Some (JStr ''replied'')"
    and "fst (catch_all x) = Inr doc"
  shows "dict_get doc ''status'' \<noteq> Some (JStr ''replied'')"
  using assms by (cases x rule: catch_all.cases) auto

lemma reply_dry_frame:
  "submits (snd (reply_to_post e w pid reply_text True)) = submits w
   \<and> submissions (snd (reply_to_post e w pid reply_text True)) = submissions w"
  by (simp add: reply_to_post_def reply_body_dry_frame split: option.split sum.split)

lemma reply_dry_status:
  assumes "fst (reply_to_post e w pid reply_text True) = Inr doc"
  shows "dict_get doc ''status'' \<noteq> Some (JStr ''replied'')"
proof (cases "get_reddit e w")
  case (Inl x)
  then show ?thesis using assms by (simp add: reply_to_post_def)
next
  case (Inr handle)
  show ?thesis
  proof (cases handle)
    case None
    then show ?thesis using assms Inr by (auto simp: reply_to_post_def)
  next
    case (Some r)
    then have "fst (catch_all (reply_body w pid reply_text True)) = Inr doc"
      using assms Inr by (simp add: reply_to_post_def)
    then show ?thesis
      using catch_all_status [of "reply_body w pid reply_text True" doc] reply_body_dry_status
      by blast
  qed
qed

lemma scan_frame:
  "submits (snd (scan_opportunities e w subreddits keywords limit)) = submits w"
proof (cases "get_reddit e w")
  case (Inl x)
  then show ?thesis by (simp add: scan_opportunities_def)
next
  case (Inr handle)
  show ?thesis
  proof (cases handle)
    case None
    then show ?thesis using Inr by (simp add: scan_opportunities_def)
  next
    case (Some r)
    have "filter is_submit (map (\<lambda>s. ListNew s limit) subs) = []" for subs
      by (induction subs) (simp_all add: is_submit_def)
    then show ?thesis
      using Some Inr by (simp add: scan_configured submits_def)
  qed
qed

lemma scan_status:
  "fst (scan_opportunities e w subreddits keywords limit) = Inr doc
     \<Longrightarrow> dict_get doc ''status'' = None"
  by (auto simp: scan_opportunities_def Let_def split: prod.splits sum.splits option.splits)

lemma warmup_frame: "submits (snd (warmup_actions e w)) = submits w"
  by (simp add: warmup_actions_def warmup_body_def Let_def fetch_me_def submits_sent is_submit_def
      split: option.split sum.split prod.split)

lemma warmup_status:
  "fst (warmup_actions e w) = Inr doc \<Longrightarrow> dict_get doc ''status'' \<noteq> Some (JStr ''replied'')"
  by (auto simp: warmup_actions_def warmup_body_def Let_def fetch_me_def
      split: option.splits sum.splits prod.splits)

lemma status_frame: "submits (snd (check_status e w)) = submits w"
  by (simp add: check_status_def check_status_body_def fetch_me_def submits_sent is_submit_def
      split: option.split sum.split)

lemma status_status:
  "fst (check_status e w) = Inr doc \<Longrightarrow> dict_get doc ''status'' = None"
  by (auto simp: check_status_def check_status_body_def fetch_me_def
      split: option.splits sum.splits)

lemma printed_fst: "fst (printed x) = Inr (doc, code) \<Longrightarrow> fst x = Inr doc"
  by (cases x rule: printed.cases) simp_all

lemma main_live_only:
  assumes "''--live'' \<notin> set argv"
  shows "submits (snd (main e w argv)) = submits w"
    and "fst (main e w argv) = Inr (doc, code) \<Longrightarrow> dict_get doc ''status'' \<noteq> Some (JStr ''replied'')"
proof -
  show "submits (snd (main e w argv)) = submits w"
    using assms by (simp add: main_def Let_def scan_frame warmup_frame status_frame reply_dry_frame)
  assume out: "fst (main e w argv) = Inr (doc, code)"
  show "dict_get doc ''status'' \<noteq> Some (JStr ''replied'')"
  proof (cases "length argv < 2")
    case True
    then show ?thesis using out by (auto simp: main_def)
  next
    case long: False
    consider (scan) "argv ! 1 = ''scan''"
      | (reply) "argv ! 1 = ''reply''"
      | (warmup) "argv ! 1 = ''warmup''"
      | (status) "argv ! 1 = ''status''"
      | (other) "argv ! 1 \<noteq> ''scan''" "argv ! 1 \<noteq> ''reply''" "argv ! 1 \<noteq> ''warmup''"
          "argv ! 1 \<noteq> ''status''"
      by blast
    then show ?thesis
    proof cases
      case scan
      then have "fst (scan_opportunities e w (parse_subs (drop 2 argv) None) None 25) = Inr doc"
        using out long by (simp add: main_def Let_def printed_fst)
      then show ?thesis using scan_status by fastforce
    next
      case reply
      show ?thesis
      proof (cases "length argv < 4")
        case True
        then show ?thesis using out long reply by (auto simp: main_def Let_def)
      next
        case False
        then have "fst (reply_to_post e w (argv ! 2) (argv ! 3) True) = Inr doc"
          using out long reply assms by (simp add: main_def Let_def printed_fst)
        then show ?thesis by (rule reply_dry_status)
      qed
    next
      case warmup
      then have "fst (warmup_actions e w) = Inr doc"
        using out long by (simp add: main_def Let_def printed_fst)
      then show ?thesis by (rule warmup_status)
    next
      case status
      then have "fst (check_status e w) = Inr doc"
        using out long by (simp add: main_def Let_def printed_fst)
      then show ?thesis using status_status by fastforce
    next
      case other
      then show ?thesis using out long by (auto simp: main_def Let_def)
    qed
  qed
qed

lemma demo_submission_p1:
  "submissions demo_world ''p1''
     = Inr \<lparr>sub_title = ''Looking for a tool to track competitor prices'',
            sub_permalink = ''/r/SaaS/comments/p1/'',
            sub_comments = [Comment (Some ''someone'') [Comment (Some ''fishbig'') []],
                            Comment None []]\<rparr>"
  by (simp add: demo_world_def)

lemma demo_user_me: "user_me demo_world = Inr (Some demo_me)"
  by (simp add: demo_world_def)

text \<open>
  The duplicate check works on the loaded comments: when the post and the profile are
  fetched and a loaded comment of the post, at any depth, is by the logged-in account, the
  reply executor returns \<open>skipped\<close>, sends the two fetches and nothing else, and leaves
  the service's submissions as they are; invoked a second time it does the same.
\<close>

lemma reply_skips_loaded_comment:
  assumes "get_reddit e w = Inr (Some r)"
    and "submissions w pid = Inr s"
    and "user_me w = Inr (Some me)"
    and "commented_loaded (r_name me) (sub_comments s)"
  shows "\<exists>w1 w2. reply_to_post e w pid reply_text dry_run = (Inr skipped_result, w1)
           \<and> reply_to_post e w1 pid reply_text dry_run = (Inr skipped_result, w2)
           \<and> submissions w2 = submissions w
           \<and> requests w2 = requests w @ [FetchSubmission pid, FetchMe, FetchSubmission pid, FetchMe]"
proof -
  let ?w1 = "w\<lparr>requests := requests w @ [FetchSubmission pid, FetchMe]\<rparr>"
  let ?w2 = "?w1\<lparr>requests := requests ?w1 @ [FetchSubmission pid, FetchMe]\<rparr>"
  have first: "reply_to_post e w pid reply_text dry_run = (Inr skipped_result, ?w1)"
    using assms by (simp add: reply_to_post_def reply_body_skipped)
  have "submissions ?w1 pid = Inr s" and "user_me ?w1 = Inr (Some me)"
    using assms by simp_all
  then have second: "reply_to_post e ?w1 pid reply_text dry_run = (Inr skipped_result, ?w2)"
    using assms(1,4) by (simp add: reply_to_post_def reply_body_skipped)
  have "submissions ?w2 = submissions w"
    and "requests ?w2 = requests w @ [FetchSubmission pid, FetchMe, FetchSubmission pid, FetchMe]"
    by simp_all
  then show ?thesis
    using first second by blast
qed

lemma reply_skips_loaded_comment_demo:
  "\<exists>w1 w2. reply_to_post demo_env demo_world ''p1'' ''hello'' False = (Inr skipped_result, w1)
           \<and> reply_to_post demo_env w1 ''p1'' ''hello'' False = (Inr skipped_result, w2)
           \<and> submissions w2 = submissions demo_world
           \<and> requests w2 = [FetchSubmission ''p1'', FetchMe, FetchSubmission ''p1'', FetchMe]"
proof -
  have c: "commented_loaded (r_name demo_me)
        (sub_comments \<lparr>sub_title = ''Looking for a tool to track competitor prices'',
            sub_permalink = ''/r/SaaS/comments/p1/'',
            sub_comments = [Comment (Some ''someone'') [Comment (Some ''fishbig'') []],
                            Comment None []]\<rparr>)"
    by (simp add: commented_loaded_def demo_me_def)
  show ?thesis
    using reply_skips_loaded_comment [OF get_reddit_demo demo_submission_p1 demo_user_me c,
        of "''hello''" False]
    by (simp add: demo_requests)
qed

text \<open>
  Claim C2 fails on the code. The source marks the step as the check whether the account
  has already replied, but \<^verbatim>\<open>replace_more(limit=0)\<close> drops the placeholders instead of
  expanding them. Post \<open>p2\<close> has a comment by the logged-in account \<open>fishbig\<close> behind a
  placeholder, so its fully expanded forest contains a comment by the account; yet a live
  invocation submits a second comment and returns \<open>replied\<close> (the requests are the two
  fetches and one submission, and the post has gained a comment), and a dry run returns a
  preview, not \<open>skipped\<close>. Only the next invocation, which finds the new comment
  loaded, is skipped.
\<close>

theorem reply_misses_hidden_comment:
  "submissions demo_world ''p2''
       = Inr \<lparr>sub_title = ''AI tool for browser automation'',
              sub_permalink = ''/r/startups/comments/p2/'',
              sub_comments = [Comment (Some ''someone'') [],
                              MoreComments [Comment (Some ''fishbig'') []]]\<rparr>
   \<and> user_me demo_world = Inr (Some demo_me) \<and> r_name demo_me = ''fishbig''
   \<and> commented_anywhere ''fishbig''
        [Comment (Some ''someone'') [], MoreComments [Comment (Some ''fishbig'') []]]
   \<and> fst (reply_to_post demo_env demo_world ''p2'' ''hello'' False)
       = Inr (JObj [(''status'', JStr ''replied''), (''post_id'', JStr ''p2''),
                    (''comment_id'', JStr ''c9''),
                    (''comment_url'', JStr ''https://reddit.com/r/x/comments/c9/'')])
   \<and> requests (snd (reply_to_post demo_env demo_world ''p2'' ''hello'' False))
       = [FetchSubmission ''p2'', FetchMe, SubmitComment ''p2'' ''hello'']
   \<and> submissions (snd (reply_to_post demo_env demo_world ''p2'' ''hello'' False)) ''p2''
       = Inr \<lparr>sub_title = ''AI tool for browser automation'',
              sub_permalink = ''/r/startups/comments/p2/'',
              sub_comments = [Comment (Some ''someone'') [],
                              MoreComments [Comment (Some ''fishbig'') []],
                              Comment (Some ''fishbig'') []]\<rparr>
   \<and> fst (reply_to_post demo_env demo_world ''p2'' ''hello'' True)
       = Inr (JObj [(''status'', JStr ''dry_run''),
                    (''post_title'', JStr ''AI tool for browser automation''),
                    (''post_url'', JStr ''https://reddit.com/r/startups/comments/p2/''),
                    (''would_reply'', JStr ''hello'')])
   \<and> fst (reply_to_post demo_env
             (snd (reply_to_post demo_env demo_world ''p2'' ''hello'' False)) ''p2'' ''hello'' False)
       = Inr (JObj [(''status'', JStr ''skipped''), (''reason'', JStr ''already_replied'')])"
  by code_simp

text \<open>
  Claim C3. With the dry-run flag set, the reply executor sends no comment submission and
  leaves the service's submissions as they are, whatever the post id and the text. A result
  with status \<open>replied\<close> comes from the reply executor only when the flag is not set, and
  from the command line only when \<open>--live\<close> is among the arguments; likewise a command line
  without \<open>--live\<close> sends no comment submission.
\<close>

theorem dry_run_never_submits:
  "submits (snd (reply_to_post e w pid reply_text True)) = submits w
   \<and> submissions (snd (reply_to_post e w pid reply_text True)) = submissions w
   \<and> (\<forall>doc. fst (reply_to_post e w pid reply_text dry_run) = Inr doc
             \<and> dict_get doc ''status'' = Some (JStr ''replied'')
           \<longrightarrow> \<not> dry_run)
   \<and> (\<forall>doc code. fst (main e w argv) = Inr (doc, code)
             \<and> dict_get doc ''status'' = Some (JStr ''replied'')
           \<longrightarrow> ''--live'' \<in> set argv)
   \<and> (submits (snd (main e w argv)) \<noteq> submits w \<longrightarrow> ''--live'' \<in> set argv)"
proof -
  have a: "\<forall>doc. fst (reply_to_post e w pid reply_text dry_run) = Inr doc
             \<and> dict_get doc ''status'' = Some (JStr ''replied'')
           \<longrightarrow> \<not> dry_run"
    using reply_dry_status by (cases dry_run) auto
  have b: "\<forall>doc code. fst (main e w argv) = Inr (doc, code)
             \<and> dict_get doc ''status'' = Some (JStr ''replied'')
           \<longrightarrow> ''--live'' \<in> set argv"
    using main_live_only(2) by blast
  have c: "submits (snd (main e w argv)) \<noteq> submits w \<longrightarrow> ''--live'' \<in> set argv"
    using main_live_only(1) by blast
  show ?thesis
    using reply_dry_frame a b c by blast
qed

theorem dry_run_never_submits_witness:
  "submits (snd (reply_to_post demo_env demo_world ''p3'' ''hello'' True)) = []
   \<and> fst (reply_to_post demo_env demo_world ''p3'' ''hello'' True)
       = Inr (JObj [(''status'', JStr ''dry_run''), (''post_title'', JStr ''I need a workflow''),
                    (''post_url'', JStr ''https://reddit.com/r/old/comments/p3/''),
                    (''would_reply'', JStr ''hello'')])
   \<and> fst (main demo_env demo_world [''reddit_scanner.py'', ''reply'', ''p3'', ''hello'', ''--live''])
       = Inr (JObj [(''status'', JStr ''replied''), (''post_id'', JStr ''p3''),
                    (''comment_id'', JStr ''c9''),
                    (''comment_url'', JStr ''https://reddit.com/r/x/comments/c9/'')], 0)
   \<and> ''--live'' \<in> set [''reddit_scanner.py'', ''reply'', ''p3'', ''hello'', ''--live'']
   \<and> submits (snd (main demo_env demo_world [''reddit_scanner.py'', ''reply'', ''p3'', ''hello'']))
       = []"
proof -
  let ?replied = "JObj [(''status'', JStr ''replied''), (''post_id'', JStr ''p3''),
                    (''comment_id'', JStr ''c9''),
                    (''comment_url'', JStr ''https://reddit.com/r/x/comments/c9/'')]"
  have s: "submits demo_world = []"
    by (simp add: submits_def demo_requests)
  have a: "fst (reply_to_post demo_env demo_world ''p3'' ''hello'' True)
       = Inr (JObj [(''status'', JStr ''dry_run''), (''post_title'', JStr ''I need a workflow''),
                    (''post_url'', JStr ''https://reddit.com/r/old/comments/p3/''),
                    (''would_reply'', JStr ''hello'')])"
    by code_simp
  have b: "fst (main demo_env demo_world [''reddit_scanner.py'', ''reply'', ''p3'', ''hello'', ''--live''])
       = Inr (?replied, 0)"
    by code_simp
  have st: "dict_get ?replied ''status'' = Some (JStr ''replied'')"
    by simp
  have n: "''--live'' \<notin> set [''reddit_scanner.py'', ''reply'', ''p3'', ''hello'']"
    by simp
  note dry = dry_run_never_submits [of demo_env demo_world "''p3''" "''hello''" True
      "[''reddit_scanner.py'', ''reply'', ''p3'', ''hello'']"]
  note live = dry_run_never_submits [of demo_env demo_world "''p3''" "''hello''" False
      "[''reddit_scanner.py'', ''reply'', ''p3'', ''hello'', ''--live'']"]
  have c: "submits (snd (reply_to_post demo_env demo_world ''p3'' ''hello'' True)) = []"
    using dry s by simp
  have d: "submits (snd (main demo_env demo_world [''reddit_scanner.py'', ''reply'', ''p3'', ''hello'']))
       = []"
    using dry s n by metis
  have e: "''--live'' \<in> set [''reddit_scanner.py'', ''reply'', ''p3'', ''hello'', ''--live'']"
    using live b st by blast
  show ?thesis
    using a b c d e by simp
qed

subsection \<open>Warmup\<close>

text \<open>
  Claim C9, with the strings the code has. When the profile request returns a profile and
  the trending listing does not raise, the warmup result's suggestion is
  \<open>Comment on these posts with genuine value to build karma\<close> exactly when link plus
  comment karma is below 100, and \<open>Ready for targeted replies\<close> exactly otherwise.
\<close>

theorem warmup_suggestion:
  assumes "get_reddit e w = Inr (Some r)"
    and "user_me w = Inr (Some me)"
    and "snd (hot_listing w ''all'' 5) = None"
    and "karma = r_link_karma me + r_comment_karma me"
  shows "\<exists>doc. fst (warmup_actions e w) = Inr doc
     \<and> dict_get doc ''karma'' = Some (JInt karma)
     \<and> (dict_get doc ''suggestion''
           = Some (JStr ''Comment on these posts with genuine value to build karma''))
         = (karma < 100)
     \<and> (dict_get doc ''suggestion'' = Some (JStr ''Ready for targeted replies''))
         = (100 \<le> karma)"
proof (cases "hot_listing w ''all'' 5")
  case (Pair posts failure)
  then have "failure = None" using assms(3) by simp
  then show ?thesis
    using assms(1,2,4) Pair
    by (auto simp: warmup_actions_def warmup_body_def fetch_me_def Let_def)
qed

theorem warmup_suggestion_witness:
  "get_reddit demo_env demo_world = Inr (Some demo_handle) \<and> user_me demo_world = Inr (Some demo_me)
   \<and> snd (hot_listing demo_world ''all'' 5) = None
   \<and> (\<exists>doc. fst (warmup_actions demo_env demo_world) = Inr doc
         \<and> dict_get doc ''karma'' = Some (JInt 55)
         \<and> dict_get doc ''suggestion''
             = Some (JStr ''Comment on these posts with genuine value to build karma''))"
proof -
  note r = get_reddit_demo
  have h: "snd (hot_listing demo_world ''all'' 5) = None"
    by (simp add: demo_world_def)
  have k: "(55::int) = r_link_karma demo_me + r_comment_karma demo_me"
    by (simp add: demo_me_def)
  show ?thesis
    using warmup_suggestion [OF r demo_user_me h k] r demo_user_me h by auto
qed

text \<open>
  The suggestion strings of the claim are not the ones the code returns: at karma 55 the
  suggestion is not \<open>build karma via genuine comments\<close>.
\<close>

theorem warmup_suggestion_counterexample:
  "r_link_karma demo_me + r_comment_karma demo_me = 55
   \<and> fst (warmup_actions demo_env demo_world)
       = Inr (JObj [(''status'', JStr ''ok''), (''username'', JStr ''fishbig''),
                    (''karma'', JInt 55), (''account_age_days'', JNum 30.5),
                    (''hot_posts_browsed'', JInt 2),
                    (''suggestion'',
                     JStr ''Comment on these posts with genuine value to build karma'')])
   \<and> ''Comment on these posts with genuine value to build karma''
       \<noteq> ''build karma via genuine comments''"
  by code_simp

subsection \<open>Failure contract\<close>

text \<open>
  Once \<^verbatim>\<open>get_reddit\<close> has returned, nothing escapes: each operation returns a value, the
  command line prints a document, and an exception raised inside the body of reply, warmup
  or status, such as a refused fetch of the post or of the profile, becomes an object whose
  \<open>error\<close> field is the exception's message. (A failed listing during a scan becomes an
  inline record, see C8.)
\<close>

lemma catch_all_returns: "\<exists>v. fst (catch_all x) = Inr v"
  by (cases x rule: catch_all.cases) simp_all

lemma catch_all_converts:
  "fst x = Inl m \<Longrightarrow> \<exists>doc. fst (catch_all x) = Inr doc \<and> dict_get doc ''error'' = Some (JStr m)"
  by (cases x rule: catch_all.cases) simp_all

lemma printed_returns: "fst x = Inr v \<Longrightarrow> fst (printed x) = Inr (v, 0)"
  by (cases x rule: printed.cases) simp_all

lemma scan_returns:
  "get_reddit e w = Inr handle
     \<Longrightarrow> \<exists>v. fst (scan_opportunities e w subreddits keywords limit) = Inr v"
  by (simp add: scan_opportunities_def Let_def split: option.split prod.split)

lemma reply_returns:
  "get_reddit e w = Inr handle \<Longrightarrow> \<exists>v. fst (reply_to_post e w pid reply_text dry_run) = Inr v"
  by (simp add: reply_to_post_def catch_all_returns split: option.split)

lemma warmup_returns: "get_reddit e w = Inr handle \<Longrightarrow> \<exists>v. fst (warmup_actions e w) = Inr v"
  by (simp add: warmup_actions_def catch_all_returns split: option.split)

lemma status_returns: "get_reddit e w = Inr handle \<Longrightarrow> \<exists>v. fst (check_status e w) = Inr v"
  by (simp add: check_status_def catch_all_returns split: option.split)

lemma main_prints:
  assumes "get_reddit e w = Inr handle"
  shows "\<exists>doc code. fst (main e w argv) = Inr (doc, code)"
proof -
  obtain a where a: "fst (scan_opportunities e w (parse_subs (drop 2 argv) None) None 25) = Inr a"
    using scan_returns [OF assms] by blast
  obtain b where b: "fst (reply_to_post e w (argv ! 2) (argv ! 3) (''--live'' \<notin> set argv)) = Inr b"
    using reply_returns [OF assms] by blast
  obtain c where c: "fst (warmup_actions e w) = Inr c"
    using warmup_returns [OF assms] by blast
  obtain d where d: "fst (check_status e w) = Inr d"
    using status_returns [OF assms] by blast
  show ?thesis
    by (simp add: main_def Let_def printed_returns [OF a] printed_returns [OF b]
        printed_returns [OF c] printed_returns [OF d])
qed

lemma reply_body_fetch_fails:
  "submissions w pid = Inl m \<Longrightarrow> fst (reply_body w pid reply_text dry_run) = Inl m"
  by (simp add: reply_body_def Let_def)

lemma warmup_body_me_fails: "user_me w = Inl m \<Longrightarrow> fst (warmup_body w) = Inl m"
  by (simp add: warmup_body_def fetch_me_def)

lemma status_body_me_fails: "user_me w = Inl m \<Longrightarrow> fst (check_status_body w) = Inl m"
  by (simp add: check_status_body_def fetch_me_def)

lemma body_exceptions_become_errors:
  assumes "get_reddit e w = Inr (Some r)"
  shows "fst (reply_body w pid reply_text dry_run) = Inl m
           \<Longrightarrow> \<exists>doc. fst (reply_to_post e w pid reply_text dry_run) = Inr doc
                    \<and> dict_get doc ''error'' = Some (JStr m)"
    and "fst (warmup_body w) = Inl m
           \<Longrightarrow> \<exists>doc. fst (warmup_actions e w) = Inr doc \<and> dict_get doc ''error'' = Some (JStr m)"
    and "fst (check_status_body w) = Inl m
           \<Longrightarrow> \<exists>doc. fst (check_status e w) = Inr doc \<and> dict_get doc ''error'' = Some (JStr m)"
  using assms
  by (simp_all add: reply_to_post_def warmup_actions_def check_status_def catch_all_converts)

lemma refused_requests_become_errors:
  assumes "get_reddit e w = Inr (Some r)"
  shows "submissions w pid = Inl m
           \<Longrightarrow> \<exists>doc. fst (reply_to_post e w pid reply_text dry_run) = Inr doc
                    \<and> dict_get doc ''error'' = Some (JStr m)"
    and "user_me w = Inl m
           \<Longrightarrow> \<exists>doc. fst (warmup_actions e w) = Inr doc \<and> dict_get doc ''error'' = Some (JStr m)"
    and "user_me w = Inl m
           \<Longrightarrow> \<exists>doc. fst (check_status e w) = Inr doc \<and> dict_get doc ''error'' = Some (JStr m)"
  using body_exceptions_become_errors [OF assms] reply_body_fetch_fails warmup_body_me_fails
    status_body_me_fails
  by blast+

lemma refused_requests_demo:
  "fst (reply_to_post demo_env offline_world ''nowhere'' ''hello'' False)
     = Inr (JObj [(''error'', JStr ''received 404 HTTP response'')])
   \<and> fst (warmup_actions demo_env offline_world)
       = Inr (JObj [(''error'', JStr ''received 401 HTTP response'')])
   \<and> fst (check_status demo_env offline_world)
       = Inr (JObj [(''error'', JStr ''received 401 HTTP response'')])"
  by code_simp

lemma get_reddit_broken: "get_reddit demo_env broken_init_world = Inl ''No section: nosuch''"
  by (simp add: get_reddit_def demo_env_def broken_init_world_def)

text \<open>
  Claim C7 fails on the code. Every request made inside an operation's \<^verbatim>\<open>try\<close> block is
  caught, but each operation calls \<^verbatim>\<open>get_reddit()\<close> before its \<^verbatim>\<open>try\<close>, and the
  constructor of the client is called there. In a process where the client id and secret
  are set and the constructor raises, the exception leaves each of the four operations and
  the command line: no document is printed, and no request has been sent.
\<close>

theorem constructor_exception_escapes:
  "client_init broken_init_world demo_handle = Some ''No section: nosuch''
   \<and> scan_opportunities demo_env broken_init_world None None 25
       = (Inl ''No section: nosuch'', broken_init_world)
   \<and> reply_to_post demo_env broken_init_world ''p3'' ''hello'' True
       = (Inl ''No section: nosuch'', broken_init_world)
   \<and> warmup_actions demo_env broken_init_world = (Inl ''No section: nosuch'', broken_init_world)
   \<and> check_status demo_env broken_init_world = (Inl ''No section: nosuch'', broken_init_world)
   \<and> main demo_env broken_init_world [''reddit_scanner.py'', ''status'']
       = (Inl ''No section: nosuch'', broken_init_world)
   \<and> requests broken_init_world = []"
proof -
  have c: "client_init broken_init_world demo_handle = Some ''No section: nosuch''"
    by (simp add: broken_init_world_def)
  have q: "requests broken_init_world = []"
    by (simp add: broken_init_world_def demo_world_def)
  show ?thesis
    using c q
    by (simp add: get_reddit_broken scan_opportunities_def reply_to_post_def warmup_actions_def
        check_status_def main_def)
qed

end
